theory Spec2Isabelle
  imports Complex_Main "HOL-Library.Log_Nat" "HOL-Library.AList" "HOL-Library.Sublist"
begin

section \<open>JavaScript values\<close>

subsection \<open>Strings\<close>

text \<open>
  A JavaScript string is a sequence of UTF-16 code units. Every string of the program
  (titles, diagram sources, element ids, class attributes, HTML text, error messages) is
  a list of code units; \<open>lit\<close> embeds an ASCII literal of the source.
\<close>

type_synonym jstring = "nat list"

definition lit :: "string \<Rightarrow> jstring" where
  "lit s = map of_char s"

text \<open>Template literals print an array index in decimal.\<close>

function show_nat :: "nat \<Rightarrow> jstring" where
  "show_nat n = (if n < 10 then [48 + n] else show_nat (n div 10) @ [48 + n mod 10])"
  by pat_completeness auto
termination
  by (relation "measure id") auto

declare show_nat.simps [simp del]

subsection \<open>Numbers\<close>

text \<open>
  A JavaScript number is an IEEE-754 double. A finite double is represented by its exact
  rational value; \<open>fl\<close> rounds a rational to the nearest double, ties to even (53 bits of
  precision, gradual underflow below \<open>2 powi - 1022\<close>). The numbers of this program stay
  between \<open>2 / 5\<close> and \<open>220\<close>, so overflow, \<^verbatim>\<open>NaN\<close> and the sign of zero are left out.
\<close>

definition ilog2 :: "rat \<Rightarrow> int" where
  "ilog2 x =
     (case quotient_of x of
        (a, b) \<Rightarrow> let d = bitlen a - bitlen b in if 2 powi d \<le> x then d else d - 1)"

definition round_even :: "rat \<Rightarrow> int" where
  "round_even q =
     (let f = \<lfloor>q\<rfloor>; r = q - of_int f
      in if r < 1 / 2 then f else if 1 / 2 < r then f + 1 else if even f then f else f + 1)"

definition fl :: "rat \<Rightarrow> rat" where
  "fl x =
     (if x = 0 then 0
      else let e = max (ilog2 \<bar>x\<bar>) (- 1022); u = 2 powi (e - 52)
           in sgn x * of_int (round_even (\<bar>x\<bar> / u)) * u)"

definition js_add :: "rat \<Rightarrow> rat \<Rightarrow> rat" where
  "js_add x y = fl (x + y)"

definition js_sub :: "rat \<Rightarrow> rat \<Rightarrow> rat" where
  "js_sub x y = fl (x - y)"

definition js_mul :: "rat \<Rightarrow> rat \<Rightarrow> rat" where
  "js_mul x y = fl (x * y)"

text \<open>\<^verbatim>\<open>Math.round\<close>: the nearest integer, a tie going up.\<close>

definition Math_round :: "rat \<Rightarrow> int" where
  "Math_round x = \<lfloor>x + 1 / 2\<rfloor>"

text \<open>The literal \<^verbatim>\<open>0.1\<close>; the literals \<^verbatim>\<open>0.5\<close>, \<^verbatim>\<open>1\<close>, \<^verbatim>\<open>2\<close> and \<^verbatim>\<open>100\<close> are doubles.\<close>

definition num_0_1 :: rat where
  "num_0_1 = fl (1 / 10)"

subsection \<open>JSON values and thrown values\<close>

datatype json =
    JNull
  | JBool bool
  | JNum rat
  | JStr jstring
  | JArr "json list"
  | JObj "(jstring \<times> json) list"

text \<open>
  What a \<^verbatim>\<open>throw\<close> or a rejected promise carries: an error object with its
  \<^verbatim>\<open>message\<close>, \<^verbatim>\<open>null\<close> or \<^verbatim>\<open>undefined\<close> (\<open>ThrownNullish\<close>), or some other
  value that has no property \<^verbatim>\<open>message\<close> (\<open>ThrownOther\<close>).
\<close>

datatype err_kind = JsError | SyntaxError | TypeError

datatype thrown =
    Thrown err_kind jstring
  | ThrownNullish
  | ThrownOther

text \<open>
  What the engine decides: \<open>ToString\<close> of a JSON value that is not a string, and the text
  of the \<^verbatim>\<open>TypeError\<close> raised by reading a property of \<^verbatim>\<open>null\<close> or \<^verbatim>\<open>undefined\<close>.
\<close>

record engine =
  ToString_json :: "json \<Rightarrow> jstring"
  TypeError_text :: jstring

section \<open>Upload client (\<^verbatim>\<open>api.js\<close>)\<close>

text \<open>
  \<^verbatim>\<open>
  const API_BASE_URL = 'http://localhost:5000/api';
  export const uploadPDF = async (file) => {
    const formData = new FormData();
    formData.append('file', file);
    try {
      const response = await fetch(`${API_BASE_URL}/mindmaps`, { method: 'POST', body: formData });
      if (!response.ok) {
        const errorData = await response.json();
        throw new Error(errorData.error || 'Failed to upload file');
      }
      return await response.json();
    } catch (error) {
      console.error('Error uploading PDF:', error);
      throw error;
    }
  };
  \<close>
  The network is a function from the request to what \<^verbatim>\<open>fetch\<close> settles with. A response
  carries \<^verbatim>\<open>ok\<close> (status in 200..299) and what \<^verbatim>\<open>response.json()\<close> settles
  with: the parsed body, or the error of the parser. The result of \<open>uploadPDF\<close> is the console
  log together with what the returned promise settles with (\<open>Inl\<close>: rejected).
\<close>

record 'f request =
  req_url :: jstring
  req_method :: jstring
  form :: "(jstring \<times> 'f) list"

record response =
  ok :: bool
  json_body :: "thrown + json"

definition API_BASE_URL :: jstring where
  "API_BASE_URL = lit ''http://localhost:5000/api''"

text \<open>\<open>ToBoolean\<close> on a parsed JSON value.\<close>

fun truthy :: "json \<Rightarrow> bool" where
  "truthy JNull = False"
| "truthy (JBool b) = b"
| "truthy (JNum n) = (n \<noteq> 0)"
| "truthy (JStr s) = (s \<noteq> [])"
| "truthy (JArr xs) = True"
| "truthy (JObj kvs) = True"

text \<open>
  \<^verbatim>\<open>errorData.error\<close>: reading a property of \<^verbatim>\<open>null\<close> raises a \<^verbatim>\<open>TypeError\<close>;
  an object yields its property or \<^verbatim>\<open>undefined\<close> (\<open>None\<close>); any other JSON value
  has no property \<^verbatim>\<open>error\<close>.
\<close>

fun get_error_field :: "engine \<Rightarrow> json \<Rightarrow> thrown + json option" where
  "get_error_field js JNull = Inl (Thrown TypeError (TypeError_text js))"
| "get_error_field js (JObj kvs) = Inr (map_of kvs (lit ''error''))"
| "get_error_field js v = Inr None"

definition fallback_message :: jstring where
  "fallback_message = lit ''Failed to upload file''"

text \<open>\<^verbatim>\<open>new Error(v)\<close>: the message is \<open>ToString v\<close>.\<close>

fun new_Error :: "engine \<Rightarrow> json \<Rightarrow> thrown" where
  "new_Error js (JStr s) = Thrown JsError s"
| "new_Error js v = Thrown JsError (ToString_json js v)"

text \<open>\<^verbatim>\<open>errorData.error || 'Failed to upload file'\<close>.\<close>

definition error_or_fallback :: "json option \<Rightarrow> json" where
  "error_or_fallback x =
     (case x of
        None \<Rightarrow> JStr fallback_message
      | Some v \<Rightarrow> if truthy v then v else JStr fallback_message)"

definition upload_request :: "'f \<Rightarrow> 'f request" where
  "upload_request file =
     \<lparr>req_url = API_BASE_URL @ lit ''/mindmaps'', req_method = lit ''POST'',
      form = [(lit ''file'', file)]\<rparr>"

text \<open>The body of the \<^verbatim>\<open>try\<close> block.\<close>

definition upload_try :: "engine \<Rightarrow> ('f request \<Rightarrow> thrown + response) \<Rightarrow> 'f \<Rightarrow> thrown + json" where
  "upload_try js fetch file =
     (case fetch (upload_request file) of
        Inl e \<Rightarrow> Inl e
      | Inr r \<Rightarrow>
          if \<not> ok r then
            (case json_body r of
               Inl e \<Rightarrow> Inl e
             | Inr errorData \<Rightarrow>
                 (case get_error_field js errorData of
                    Inl e \<Rightarrow> Inl e
                  | Inr x \<Rightarrow> Inl (new_Error js (error_or_fallback x))))
          else json_body r)"

definition uploadPDF ::
  "engine \<Rightarrow> ('f request \<Rightarrow> thrown + response) \<Rightarrow> 'f \<Rightarrow> thrown list \<times> (thrown + json)" where
  "uploadPDF js fetch file =
     (case upload_try js fetch file of
        Inl e \<Rightarrow> ([e], Inl e)
      | Inr v \<Rightarrow> ([], Inr v))"

text \<open>An engine for the examples: the text of V8 for the \<^verbatim>\<open>TypeError\<close>.\<close>

definition some_engine :: engine where
  "some_engine =
     \<lparr>ToString_json = (\<lambda>v. lit ''[object Object]''),
      TypeError_text = lit ''Cannot read properties of null''\<rparr>"

text \<open>A server that answers every request with status 400 and a body that is not JSON.\<close>

definition unparseable_400 :: "unit request \<Rightarrow> thrown + response" where
  "unparseable_400 rq =
     Inr \<lparr>ok = False, json_body = Inl (Thrown SyntaxError (lit ''Unexpected end of JSON input''))\<rparr>"

text \<open>A server that answers every request with status 400 and the body \<^verbatim>\<open>{"error": "bad file"}\<close>.\<close>

definition bad_file_400 :: "unit request \<Rightarrow> thrown + response" where
  "bad_file_400 rq =
     Inr \<lparr>ok = False, json_body = Inr (JObj [(lit ''error'', JStr (lit ''bad file''))])\<rparr>"

section \<open>Diagram presenter (\<^verbatim>\<open>MindmapViewer\<close>)\<close>

subsection \<open>Props and zoom state\<close>

text \<open>
  \<^verbatim>\<open>
  interface Mindmap { title: string; code: string; }
  interface MindmapViewerProps { mindmaps: Mindmap[]; processingTime?: number; }
  interface ZoomState { scale: number; mindmapId: string; }
  const [zoomStates, setZoomStates] = React.useState<{ [key: string]: ZoomState }>({});
  \<close>
  The component guards against a missing list (\<^verbatim>\<open>!mindmaps\<close>), so \<open>mindmaps\<close> is
  optional here: \<open>None\<close> is \<^verbatim>\<open>undefined\<close> or \<^verbatim>\<open>null\<close>.
\<close>

record Mindmap =
  title :: jstring
  code :: jstring

record MindmapViewerProps =
  mindmaps :: "Mindmap list option"
  processingTime :: "rat option"

record ZoomState =
  scale :: rat
  mindmapId :: jstring

type_synonym zoom_states = "jstring \<rightharpoonup> ZoomState"

text \<open>The key \<^verbatim>\<open>`mindmap-${index}`\<close>.\<close>

definition mindmap_key :: "nat \<Rightarrow> jstring" where
  "mindmap_key index = lit ''mindmap-'' @ show_nat index"

text \<open>\<^verbatim>\<open>zoomStates[`mindmap-${index}`]?.scale || 1\<close>: a missing entry and a scale of zero give 1.\<close>

definition scale_or_1 :: "zoom_states \<Rightarrow> nat \<Rightarrow> rat" where
  "scale_or_1 zoomStates index =
     (case zoomStates (mindmap_key index) of
        None \<Rightarrow> 1
      | Some z \<Rightarrow> if scale z = 0 then 1 else scale z)"

text \<open>
  The two zoom handlers. \<open>zoomStates\<close> is the state of the render that created the handler,
  \<open>prev\<close> the state that React passes to the updater:
  \<^verbatim>\<open>
  const currentScale = zoomStates[`mindmap-${index}`]?.scale || 1;
  setZoomStates(prev => ({ ...prev,
    [`mindmap-${index}`]: { scale: Math.max(0.5, currentScale - 0.1), mindmapId: `mindmap-${index}` } }));
  \<close>
  and \<^verbatim>\<open>Math.min(2, currentScale + 0.1)\<close> for the other button.
\<close>

definition zoom_out :: "zoom_states \<Rightarrow> nat \<Rightarrow> zoom_states \<Rightarrow> zoom_states" where
  "zoom_out zoomStates index prev =
     (let currentScale = scale_or_1 zoomStates index
      in prev(mindmap_key index \<mapsto>
           \<lparr>scale = max (1 / 2) (js_sub currentScale num_0_1), mindmapId = mindmap_key index\<rparr>))"

definition zoom_in :: "zoom_states \<Rightarrow> nat \<Rightarrow> zoom_states \<Rightarrow> zoom_states" where
  "zoom_in zoomStates index prev =
     (let currentScale = scale_or_1 zoomStates index
      in prev(mindmap_key index \<mapsto>
           \<lparr>scale = min 2 (js_add currentScale num_0_1), mindmapId = mindmap_key index\<rparr>))"

text \<open>The percentage between the buttons: \<^verbatim>\<open>Math.round((zoomStates[...]?.scale || 1) * 100)\<close>.\<close>

definition displayed_percentage :: "zoom_states \<Rightarrow> nat \<Rightarrow> int" where
  "displayed_percentage zoomStates index = Math_round (js_mul (scale_or_1 zoomStates index) 100)"

text \<open>
  A click on a rendered button: the handler of the current render runs, and React applies
  the updater to the current state.
\<close>

datatype zoom_click = ZoomOut nat | ZoomIn nat

fun click :: "zoom_states \<Rightarrow> zoom_click \<Rightarrow> zoom_states" where
  "click zs (ZoomOut index) = zoom_out zs index zs"
| "click zs (ZoomIn index) = zoom_in zs index zs"

text \<open>The state after a sequence of clicks, from the initial \<^verbatim>\<open>useState({})\<close>.\<close>

definition clicks :: "zoom_click list \<Rightarrow> zoom_states" where
  "clicks cs = foldl click Map.empty cs"

text \<open>The invariant of the zoom state: every stored scale lies between 0.5 and 2.\<close>

definition scales_in_range :: "zoom_states \<Rightarrow> bool" where
  "scales_in_range zs \<longleftrightarrow> (\<forall>k z. zs k = Some z \<longrightarrow> 1 / 2 \<le> scale z \<and> scale z \<le> 2)"

subsection \<open>The document tree\<close>

text \<open>
  An element carries its tag, its id, its class attribute, its inline style, its other
  attributes and its children. A text node rendered by React is either a fixed string or
  bound to an expression of the component: \<open>Percent index\<close> shows
  \<open>displayed_percentage\<close> of the current zoom state, \<open>Seconds t\<close> shows
  \<^verbatim>\<open>t.toFixed(2)\<close>. A style value is a string, or \<^verbatim>\<open>`scale(${x})`\<close> for a number \<open>x\<close>.
\<close>

datatype jtext = Plain jstring | Percent nat | Seconds rat

datatype css_value = CssText jstring | CssScale rat

datatype node =
    Elem (tag: jstring) (ident: "jstring option") (className: jstring)
         (style: "(jstring \<times> css_value) list") (attrs: "(jstring \<times> jstring) list")
         (kids: "node list")
  | Text jtext

text \<open>The class attribute is a list of tokens separated by ASCII white space.\<close>

definition html_space :: "nat \<Rightarrow> bool" where
  "html_space c \<longleftrightarrow> c \<in> {9, 10, 12, 13, 32}"

fun tokens :: "jstring \<Rightarrow> jstring \<Rightarrow> jstring list" where
  "tokens cur [] = (if cur = [] then [] else [cur])"
| "tokens cur (c # cs) =
     (if html_space c then (if cur = [] then tokens [] cs else cur # tokens [] cs)
      else tokens (cur @ [c]) cs)"

text \<open>The simple selectors of the program: \<^verbatim>\<open>.c\<close> and a list of tag names.\<close>

fun has_class :: "jstring \<Rightarrow> node \<Rightarrow> bool" where
  "has_class c (Elem t i cls st ats ks) = (c \<in> set (tokens [] cls))"
| "has_class c (Text x) = False"

fun has_tag :: "jstring list \<Rightarrow> node \<Rightarrow> bool" where
  "has_tag ts (Elem t i cls st ats ks) = (t \<in> set ts)"
| "has_tag ts (Text x) = False"

text \<open>
  \<^verbatim>\<open>querySelectorAll(sel)\<close> on a node: the descendants that match, in document order.
  An element is addressed by its path from the node, a list of child positions;
  \<^verbatim>\<open>querySelector\<close> returns the first one. Addressing by path is exact as long as no
  element that the program writes to lies inside another one that it writes to.
\<close>

fun select_all :: "(node \<Rightarrow> bool) \<Rightarrow> node \<Rightarrow> nat list list"
  and select_kids :: "(node \<Rightarrow> bool) \<Rightarrow> nat \<Rightarrow> node list \<Rightarrow> nat list list" where
  "select_all P (Elem t i cls st ats ks) = select_kids P 0 ks"
| "select_all P (Text x) = []"
| "select_kids P n [] = []"
| "select_kids P n (k # ks) =
     (if P k then [[n]] else []) @ map ((#) n) (select_all P k) @ select_kids P (Suc n) ks"

text \<open>
  \<^verbatim>\<open>querySelectorAll('#a sel')\<close>: the descendants that match \<^verbatim>\<open>sel\<close> and have an
  ancestor with id \<open>a\<close>. The ancestor may be the node itself or lie outside of it:
  \<open>inside\<close> tells whether an ancestor of the node has that id.
\<close>

fun select_under :: "jstring \<Rightarrow> (node \<Rightarrow> bool) \<Rightarrow> bool \<Rightarrow> node \<Rightarrow> nat list list"
  and select_under_kids ::
    "jstring \<Rightarrow> (node \<Rightarrow> bool) \<Rightarrow> bool \<Rightarrow> nat \<Rightarrow> node list \<Rightarrow> nat list list" where
  "select_under a P inside (Elem t i cls st ats ks) =
     select_under_kids a P (inside \<or> i = Some a) 0 ks"
| "select_under a P inside (Text x) = []"
| "select_under_kids a P inside n [] = []"
| "select_under_kids a P inside n (k # ks) =
     (if inside \<and> P k then [[n]] else []) @ map ((#) n) (select_under a P inside k)
       @ select_under_kids a P inside (Suc n) ks"

fun get_at :: "node \<Rightarrow> nat list \<Rightarrow> node option" where
  "get_at d [] = Some d"
| "get_at (Elem t i cls st ats ks) (n # p) = (if n < length ks then get_at (ks ! n) p else None)"
| "get_at (Text x) (n # p) = None"

fun update_at :: "nat list \<Rightarrow> (node \<Rightarrow> node) \<Rightarrow> node \<Rightarrow> node" where
  "update_at [] f d = f d"
| "update_at (n # p) f (Elem t i cls st ats ks) =
     (if n < length ks then Elem t i cls st ats (ks[n := update_at p f (ks ! n)])
      else Elem t i cls st ats ks)"
| "update_at (n # p) f (Text x) = Text x"

text \<open>The mutations of the program: \<^verbatim>\<open>innerHTML\<close>, \<^verbatim>\<open>style.p = v\<close>, \<^verbatim>\<open>setAttribute\<close>.\<close>

fun set_kids :: "node list \<Rightarrow> node \<Rightarrow> node" where
  "set_kids new (Elem t i cls st ats ks) = Elem t i cls st ats new"
| "set_kids new (Text x) = Text x"

fun set_style :: "jstring \<Rightarrow> css_value \<Rightarrow> node \<Rightarrow> node" where
  "set_style p v (Elem t i cls st ats ks) = Elem t i cls (AList.update p v st) ats ks"
| "set_style p v (Text x) = Text x"

fun setAttribute :: "jstring \<Rightarrow> jstring \<Rightarrow> node \<Rightarrow> node" where
  "setAttribute a v (Elem t i cls st ats ks) = Elem t i cls st (AList.update a v ats) ks"
| "setAttribute a v (Text x) = Text x"

fun style_of :: "node \<Rightarrow> jstring \<Rightarrow> css_value option" where
  "style_of (Elem t i cls st ats ks) p = map_of st p"
| "style_of (Text x) p = None"

text \<open>All nodes of a subtree, the root included.\<close>

fun subtree :: "node \<Rightarrow> node list" where
  "subtree (Elem t i cls st ats ks) = Elem t i cls st ats ks # concat (map subtree ks)"
| "subtree (Text x) = [Text x]"

text \<open>The tree without inline styles and attributes: what the selectors can see.\<close>

fun shape :: "node \<Rightarrow> node" where
  "shape (Elem t i cls st ats ks) = Elem t i cls [] [] (map shape ks)"
| "shape (Text x) = Text x"

subsection \<open>The environment of the component\<close>

text \<open>
  What the component reads from outside its source: the engine, the dark-mode flag of the
  page, what \<^verbatim>\<open><NeonBorder />\<close> renders, the HTML parser behind \<^verbatim>\<open>innerHTML\<close>, the ids
  of the ancestors of the component in the page, and \<^verbatim>\<open>XMLSerializer\<close>.
\<close>

record env =
  the_engine :: engine
  dark :: bool
  NeonBorder :: "node list"
  parse_html :: "jstring \<Rightarrow> node list"
  outer_ids :: "jstring list"
  serializeToString :: "node \<Rightarrow> jstring"

text \<open>
  The rendering library: \<^verbatim>\<open>mermaid.render(id, text)\<close> returns a promise that resolves
  with \<^verbatim>\<open>{ svg }\<close>, returns one that rejects, or throws.
\<close>

datatype render_outcome = Resolved jstring | Rejected thrown | ThrewSync thrown

type_synonym mermaid = "jstring \<Rightarrow> jstring \<Rightarrow> render_outcome"

record mermaid_config =
  startOnLoad :: bool
  theme :: jstring
  useMaxWidth :: bool
  padding :: nat
  primaryColor :: jstring
  primaryTextColor :: jstring
  primaryBorderColor :: jstring
  lineColor :: jstring
  fontSize :: jstring

definition initialize_config :: "env \<Rightarrow> mermaid_config" where
  "initialize_config e =
     \<lparr>startOnLoad = True,
      theme = (if dark e then lit ''dark'' else lit ''default''),
      useMaxWidth = False,
      padding = 20,
      primaryColor = lit ''#7c3aed'',
      primaryTextColor = (if dark e then lit ''#fff'' else lit ''#000''),
      primaryBorderColor = lit ''#7c3aed'',
      lineColor = lit ''#7c3aed'',
      fontSize = lit ''16px''\<rparr>"

subsection \<open>What the component renders\<close>

text \<open>
  The JSX of the component as a tree. An element of the JSX has a tag, a class and children;
  its event handlers are the functions of the next subsections, and the attributes of the
  icons are left out (no selector of the program reads them).
\<close>

definition jsx :: "string \<Rightarrow> string \<Rightarrow> node list \<Rightarrow> node" where
  "jsx t cls ks = Elem (lit t) None (lit cls) [] [] ks"

definition icon :: "string \<Rightarrow> node" where
  "icon cls = jsx ''svg'' cls [jsx ''path'' [] []]"

definition placeholder :: node where
  "placeholder =
     jsx ''div'' ''text-center py-12 bg-white dark:bg-black border border-black/10 dark:border-white/20 rounded-3xl''
       [jsx ''p'' ''text-gray-600 dark:text-gray-400'' [Text (Plain (lit ''No mindmaps available''))]]"

definition spinner :: node where
  "spinner =
     jsx ''div'' ''flex justify-center items-center h-full''
       [jsx ''div'' ''animate-spin rounded-full h-10 w-10 border-t-2 border-b-2 border-purple-600'' []]"

definition diagram_div :: node where
  "diagram_div =
     Elem (lit ''div'') None (lit ''mindmap-diagram bg-white/50 dark:bg-black/50 rounded-xl p-2'')
       [(lit ''height'', CssText (lit ''400px'')), (lit ''overflow'', CssText (lit ''auto''))] []
       [spinner]"

definition zoom_button :: node where
  "zoom_button =
     jsx ''button'' ''text-purple-600 hover:text-purple-700 dark:text-purple-400 dark:hover:text-purple-300''
       [icon ''h-5 w-5'']"

definition controls :: "nat \<Rightarrow> node" where
  "controls index =
     jsx ''div'' ''flex justify-end gap-2 mb-4''
       [jsx ''button'' ''px-4 py-2 text-sm font-medium text-white bg-gradient-to-r from-purple-600 to-indigo-600 rounded-lg hover:opacity-90 transition-opacity flex items-center gap-2''
          [icon ''h-4 w-4'', Text (Plain (lit ''Download SVG''))],
        jsx ''div'' ''flex items-center gap-2 bg-white/50 dark:bg-black/50 rounded-lg px-3''
          [zoom_button,
           jsx ''span'' ''text-sm text-gray-600 dark:text-gray-400''
             [Text (Percent index), Text (Plain (lit ''%''))],
           zoom_button]]"

definition card :: "env \<Rightarrow> nat \<Rightarrow> Mindmap \<Rightarrow> node" where
  "card e index mindmap =
     jsx ''div'' ''relative bg-white dark:bg-black border border-black/10 dark:border-white/20 rounded-3xl p-6 shadow-lg''
       (NeonBorder e @
        [jsx ''h3'' ''text-2xl font-bold text-black dark:text-white mb-6'' [Text (Plain (title mindmap))],
         controls index,
         diagram_div])"

text \<open>\<^verbatim>\<open>mindmaps.map((mindmap, index) => ...)\<close>, with the running index.\<close>

fun cards :: "env \<Rightarrow> nat \<Rightarrow> Mindmap list \<Rightarrow> node list" where
  "cards e index [] = []"
| "cards e index (mindmap # rest) = card e index mindmap # cards e (Suc index) rest"

text \<open>
  \<^verbatim>\<open>{processingTime && (...)}\<close>: nothing for \<^verbatim>\<open>undefined\<close>, the text \<^verbatim>\<open>0\<close> for zero,
  the line with the time otherwise.
\<close>

definition time_line :: "rat option \<Rightarrow> node list" where
  "time_line t =
     (case t of
        None \<Rightarrow> []
      | Some x \<Rightarrow>
          if x = 0 then [Text (Plain (lit ''0''))]
          else [jsx ''div'' ''text-center mb-6''
                  [jsx ''p'' ''text-sm text-gray-600 dark:text-gray-400''
                     [Text (Plain (lit ''Generated in '')), Text (Seconds x),
                      Text (Plain (lit '' seconds''))]]])"

definition streak_button :: node where
  "streak_button =
     jsx ''div'' ''flex justify-center mt-8''
       [jsx ''button'' ''group relative inline-flex items-center justify-center px-8 py-3 font-medium text-white bg-gradient-to-r from-purple-600 to-indigo-600 rounded-full overflow-hidden transform transition-all duration-200 ease-in-out hover:scale-105 hover:shadow-lg''
          [jsx ''span'' ''absolute inset-0 w-full h-full bg-gradient-to-r from-indigo-600 to-purple-600 opacity-0 group-hover:opacity-100 transition-opacity duration-200 ease-in-out'' [],
           jsx ''span'' ''relative flex items-center''
             [icon ''h-5 w-5 mr-2'', Text (Plain (lit ''Start Study Streak''))]]]"

text \<open>
  What the theorems assume of \<^verbatim>\<open><NeonBorder />\<close>, whose source is not part of this
  development: it renders no element of class \<^verbatim>\<open>mindmap-diagram\<close>.
\<close>

definition no_diagram_class :: "node list \<Rightarrow> bool" where
  "no_diagram_class ns \<longleftrightarrow>
     (\<forall>k \<in> set ns. \<forall>d \<in> set (subtree k). \<not> has_class (lit ''mindmap-diagram'') d)"

text \<open>
  The value returned by the function component:
  \<^verbatim>\<open>
  if (!mindmaps || mindmaps.length === 0) { return <div ...><p ...>No mindmaps available</p></div>; }
  return (<div ref={containerRef} className="space-y-8"> ... </div>);
  \<close>
\<close>

definition MindmapViewer_render :: "env \<Rightarrow> MindmapViewerProps \<Rightarrow> node" where
  "MindmapViewer_render e props =
     (case mindmaps props of
        None \<Rightarrow> placeholder
      | Some ms \<Rightarrow>
          if length ms = 0 then placeholder
          else jsx ''div'' ''space-y-8''
                 (time_line (processingTime props) @ cards e 0 ms
                    @ (if length ms > 0 then [streak_button] else [])))"

text \<open>\<^verbatim>\<open>containerRef.current\<close> after the commit: the root, when it is the element with the ref.\<close>

definition containerRef_current :: "MindmapViewerProps \<Rightarrow> node \<Rightarrow> node option" where
  "containerRef_current props tree =
     (case mindmaps props of
        None \<Rightarrow> None
      | Some ms \<Rightarrow> if length ms = 0 then None else Some tree)"

subsection \<open>The effect: staggered render calls\<close>

text \<open>
  \<^verbatim>\<open>
  useEffect(() => {
    mermaid.initialize({...});
    if (mindmaps.length > 0 && containerRef.current) {
      const mindmapElements = containerRef.current.querySelectorAll('.mindmap-diagram');
      mindmapElements.forEach((element, index) => {
        setTimeout(() => { ... }, index * 300);
      });
    }
  }, [mindmaps]);
  \<close>
  A timer holds its delay, the index (\<open>idx\<close>), the element (by its path from the
  container) and the \<open>zoomStates\<close> of the render that ran the effect. Reading
  \<^verbatim>\<open>mindmaps.length\<close> of a missing list raises a \<^verbatim>\<open>TypeError\<close>, after
  \<^verbatim>\<open>mermaid.initialize\<close> has run. The effect has no cleanup, so every timer fires; React
  runs the effect at mount and again whenever the list changes, never after a zoom click.
\<close>

record timer =
  delay :: nat
  idx :: nat
  target :: "nat list"
  captured :: zoom_states

fun schedule :: "zoom_states \<Rightarrow> nat \<Rightarrow> nat list list \<Rightarrow> timer list" where
  "schedule zs n [] = []"
| "schedule zs n (element # rest) =
     \<lparr>delay = n * 300, idx = n, target = element, captured = zs\<rparr> # schedule zs (Suc n) rest"

definition run_effect ::
  "env \<Rightarrow> MindmapViewerProps \<Rightarrow> zoom_states \<Rightarrow> node option \<Rightarrow> mermaid_config \<times> (thrown + timer list)" where
  "run_effect e props zoomStates containerRef =
     (initialize_config e,
      case mindmaps props of
        None \<Rightarrow> Inl (Thrown TypeError (TypeError_text (the_engine e)))
      | Some ms \<Rightarrow>
          if length ms > 0 then
            (case containerRef of
               None \<Rightarrow> Inr []
             | Some container \<Rightarrow>
                 Inr (schedule zoomStates 0
                        (select_all (has_class (lit ''mindmap-diagram'')) container)))
          else Inr [])"

text \<open>
  The state of a mounted component: the React state, the tree under its root, the console.
\<close>

record state =
  zooms :: zoom_states
  dom :: node
  console :: "(jstring \<times> thrown) list"

text \<open>
  Mounting: React calls the component with the initial state, commits what it returns
  and runs the effect. An error thrown by an effect is not caught by the component:
  React unmounts the tree (\<open>Inl\<close>).
\<close>

definition mount :: "env \<Rightarrow> MindmapViewerProps \<Rightarrow> thrown + state \<times> timer list" where
  "mount e props =
     (let tree = MindmapViewer_render e props
      in case snd (run_effect e props Map.empty (containerRef_current props tree)) of
           Inl err \<Rightarrow> Inl err
         | Inr timers \<Rightarrow> Inr (\<lparr>zooms = Map.empty, dom = tree, console = []\<rparr>, timers))"

subsection \<open>A timer fires\<close>

text \<open>
  \<^verbatim>\<open>
  try {
    mermaid.render(`mindmap-${index}`, mindmaps[index].code)
      .then(result => { ... })
      .catch(error => { ... });
  } catch (e) { console.error('Mermaid general error:', e); }
  \<close>
  The arguments of the render call; \<^verbatim>\<open>mindmaps[index].code\<close> raises a \<^verbatim>\<open>TypeError\<close>
  when there is no entry at \<open>index\<close>.
\<close>

definition render_args :: "env \<Rightarrow> MindmapViewerProps \<Rightarrow> timer \<Rightarrow> thrown + jstring \<times> jstring" where
  "render_args e props t =
     (case mindmaps props of
        None \<Rightarrow> Inl (Thrown TypeError (TypeError_text (the_engine e)))
      | Some ms \<Rightarrow>
          if idx t < length ms then Inr (mindmap_key (idx t), code (ms ! idx t))
          else Inl (Thrown TypeError (TypeError_text (the_engine e))))"

text \<open>
  The success handler:
  \<^verbatim>\<open>
  element.innerHTML = result.svg;
  const svg = element.querySelector('svg');
  if (svg) {
    svg.style.width = '100%'; svg.style.maxWidth = '100%'; svg.style.borderRadius = '0.5rem';
    svg.style.transform = `scale(${zoomStates[`mindmap-${index}`]?.scale || 1})`;
    svg.style.transformOrigin = 'center'; svg.style.transition = 'transform 0.3s ease';
    svg.querySelectorAll('text').forEach(text => {
      text.style.fontFamily = '...'; text.style.fontSize = '14px'; });
    svg.querySelectorAll('.node').forEach(node => {
      const rect = node.querySelector('rect, circle, ellipse');
      if (rect) { rect.setAttribute('rx', '8'); rect.setAttribute('ry', '8'); } });
  }
  \<close>
\<close>

definition style_text :: "node \<Rightarrow> node" where
  "style_text text =
     set_style (lit ''fontSize'') (CssText (lit ''14px''))
       (set_style (lit ''fontFamily'')
          (CssText (lit ''ui-sans-serif, system-ui, -apple-system, BlinkMacSystemFont, sans-serif''))
          text)"

definition round_corners :: "node \<Rightarrow> node" where
  "round_corners rect = setAttribute (lit ''ry'') (lit ''8'') (setAttribute (lit ''rx'') (lit ''8'') rect)"

definition style_node :: "node \<Rightarrow> nat list \<Rightarrow> node" where
  "style_node svg p =
     (case get_at svg p of
        None \<Rightarrow> svg
      | Some n \<Rightarrow>
          (case select_all (has_tag [lit ''rect'', lit ''circle'', lit ''ellipse'']) n of
             [] \<Rightarrow> svg
           | q # qs \<Rightarrow> update_at (p @ q) round_corners svg))"

definition style_svg :: "zoom_states \<Rightarrow> nat \<Rightarrow> node \<Rightarrow> node" where
  "style_svg zoomStates index svg =
     (let s1 = set_style (lit ''width'') (CssText (lit ''100%'')) svg;
          s2 = set_style (lit ''maxWidth'') (CssText (lit ''100%'')) s1;
          s3 = set_style (lit ''borderRadius'') (CssText (lit ''0.5rem'')) s2;
          s4 = set_style (lit ''transform'') (CssScale (scale_or_1 zoomStates index)) s3;
          s5 = set_style (lit ''transformOrigin'') (CssText (lit ''center'')) s4;
          s6 = set_style (lit ''transition'') (CssText (lit ''transform 0.3s ease'')) s5;
          s7 = foldl (\<lambda>s p. update_at p style_text s) s6 (select_all (has_tag [lit ''text'']) s6)
      in foldl style_node s7 (select_all (has_class (lit ''node'')) s7))"

definition render_into :: "env \<Rightarrow> zoom_states \<Rightarrow> nat \<Rightarrow> jstring \<Rightarrow> node \<Rightarrow> node" where
  "render_into e zoomStates index svg element =
     (let element' = set_kids (parse_html e svg) element
      in case select_all (has_tag [lit ''svg'']) element' of
           [] \<Rightarrow> element'
         | p # ps \<Rightarrow> update_at p (style_svg zoomStates index) element')"

text \<open>
  The failure handler:
  \<^verbatim>\<open>
  console.error('Mermaid rendering error:', error);
  element.innerHTML = `
    <div class="p-4 ..."> <h3 class="...">Rendering Error</h3>
      <pre class="...">${error.message}</pre> </div>`;
  \<close>
  \<^verbatim>\<open>error.message\<close> is \<^verbatim>\<open>undefined\<close> for a value without that property, and reading it
  from \<^verbatim>\<open>null\<close> or \<^verbatim>\<open>undefined\<close> raises a \<^verbatim>\<open>TypeError\<close> inside the handler, which
  nothing catches (\<open>Some\<close> in the first component of the result).
\<close>

definition panel_prefix :: jstring where
  \<open>panel_prefix = lit ''\<newline>                  <div class="p-4 bg-red-50 dark:bg-red-900/20 rounded-lg border border-red-200 dark:border-red-800">\<newline>                    <h3 class="text-red-600 dark:text-red-400 font-medium">Rendering Error</h3>\<newline>                    <pre class="mt-2 text-sm text-red-800 dark:text-red-300 overflow-auto">''\<close>

definition panel_suffix :: jstring where
  \<open>panel_suffix = lit ''</pre>\<newline>                  </div>''\<close>

definition error_panel :: "jstring \<Rightarrow> jstring" where
  "error_panel message = panel_prefix @ message @ panel_suffix"

definition log_error :: "string \<Rightarrow> thrown \<Rightarrow> state \<Rightarrow> state" where
  "log_error label err st = st\<lparr>console := console st @ [(lit label, err)]\<rparr>"

definition show_panel :: "env \<Rightarrow> timer \<Rightarrow> jstring \<Rightarrow> state \<Rightarrow> state" where
  "show_panel e t message st =
     st\<lparr>dom := update_at (target t) (set_kids (parse_html e (error_panel message))) (dom st)\<rparr>"

definition on_rejected :: "env \<Rightarrow> timer \<Rightarrow> thrown \<Rightarrow> state \<Rightarrow> thrown option \<times> state" where
  "on_rejected e t err st =
     (let st' = log_error ''Mermaid rendering error:'' err st
      in case err of
           Thrown k message \<Rightarrow> (None, show_panel e t message st')
         | ThrownOther \<Rightarrow> (None, show_panel e t (lit ''undefined'') st')
         | ThrownNullish \<Rightarrow> (Some (Thrown TypeError (TypeError_text (the_engine e))), st'))"

text \<open>
  The callback of a timer. Its result has the calls of \<^verbatim>\<open>mermaid.render\<close> that it made
  (the id and the text passed), what it lets escape, and the state after the promise has
  settled and its handler has run. \<^verbatim>\<open>mermaid.render\<close> is called once the arguments are
  evaluated; when evaluating them raises, it is not called.
\<close>

definition callback ::
  "env \<Rightarrow> MindmapViewerProps \<Rightarrow> mermaid \<Rightarrow> timer \<Rightarrow> state
     \<Rightarrow> (jstring \<times> jstring) list \<times> thrown option \<times> state" where
  "callback e props render t st =
     (case render_args e props t of
        Inl err \<Rightarrow> ([], None, log_error ''Mermaid general error:'' err st)
      | Inr (key, src) \<Rightarrow>
          ([(key, src)],
           case render key src of
             ThrewSync err \<Rightarrow> (None, log_error ''Mermaid general error:'' err st)
           | Resolved svg \<Rightarrow>
               (None, st\<lparr>dom := update_at (target t)
                                  (render_into e (captured t) (idx t) svg) (dom st)\<rparr>)
           | Rejected err \<Rightarrow> on_rejected e t err st))"

text \<open>What a timer that fires leaves behind: what escapes, and the state.\<close>

definition fire ::
  "env \<Rightarrow> MindmapViewerProps \<Rightarrow> mermaid \<Rightarrow> timer \<Rightarrow> state \<Rightarrow> thrown option \<times> state" where
  "fire e props render t st = snd (callback e props render t st)"

text \<open>
  The timers of a list fire one after the other; an error that escapes from one does not
  stop the next. The result lists the calls of \<^verbatim>\<open>mermaid.render\<close>, each with the delay of
  its timer. The event loop runs timers in the order of their delays, and timers with the
  same delay in the order in which they were set.
\<close>

fun fire_all ::
  "env \<Rightarrow> MindmapViewerProps \<Rightarrow> mermaid \<Rightarrow> timer list \<Rightarrow> state
     \<Rightarrow> (nat \<times> jstring \<times> jstring) list \<times> state" where
  "fire_all e props render [] st = ([], st)"
| "fire_all e props render (t # ts) st =
     (let (calls, thrown, st') = callback e props render t st;
          (later, st'') = fire_all e props render ts st'
      in (map (\<lambda>(key, src). (delay t, key, src)) calls @ later, st''))"

definition run_timers ::
  "env \<Rightarrow> MindmapViewerProps \<Rightarrow> mermaid \<Rightarrow> timer list \<Rightarrow> state
     \<Rightarrow> (nat \<times> jstring \<times> jstring) list \<times> state" where
  "run_timers e props render ts st = fire_all e props render (sort_key delay ts) st"

text \<open>A zoom click changes the React state only; the effect depends on \<^verbatim>\<open>[mindmaps]\<close> alone.\<close>

definition zoom_click_on :: "zoom_click \<Rightarrow> state \<Rightarrow> state" where
  "zoom_click_on c st = st\<lparr>zooms := click (zooms st) c\<rparr>"

text \<open>
  The transform on the diagram of an element: the inline \<^verbatim>\<open>transform\<close> of the first
  \<^verbatim>\<open>svg\<close> inside it.
\<close>

definition applied_transform :: "node \<Rightarrow> nat list \<Rightarrow> css_value option" where
  "applied_transform tree element =
     (case get_at tree element of
        None \<Rightarrow> None
      | Some el \<Rightarrow>
          (case select_all (has_tag [lit ''svg'']) el of
             [] \<Rightarrow> None
           | p # ps \<Rightarrow>
               (case get_at el p of
                  None \<Rightarrow> None
                | Some svg \<Rightarrow> style_of svg (lit ''transform''))))"

subsection \<open>The HTML parser behind \<^verbatim>\<open>innerHTML\<close>\<close>

text \<open>
  Assigning to \<^verbatim>\<open>element.innerHTML\<close> runs the HTML fragment parser of the browser, with the
  element (a \<^verbatim>\<open>div\<close>) as context. The parser is not part of the program; the functions
  below follow the tokenizer and the tree construction of the HTML standard on the part of
  the language that the error panel is written in: text without \<^verbatim>\<open>&\<close>, NUL and carriage
  return, and start and end tags of \<^verbatim>\<open>div\<close>, \<^verbatim>\<open>h3\<close>, \<^verbatim>\<open>pre\<close> and \<^verbatim>\<open>span\<close>, with
  attributes in double quotes. On any other input the result is \<open>None\<close>, which stands for
  \<^emph>\<open>not described here\<close>, not for a failure of the browser: the browser parses every string.

  The tokenizer, one state per state of the standard. A run of characters is one token.
\<close>

datatype token = StartTag jstring "(jstring \<times> jstring) list" | EndTag jstring | Chars jstring

datatype tstate =
    Data jstring
  | TagOpen
  | TagName jstring
  | BeforeAttributeName jstring "(jstring \<times> jstring) list"
  | AttributeName jstring "(jstring \<times> jstring) list" jstring
  | BeforeAttributeValue jstring "(jstring \<times> jstring) list" jstring
  | AttributeValue jstring "(jstring \<times> jstring) list" jstring jstring
  | AfterAttributeValue jstring "(jstring \<times> jstring) list"
  | EndTagOpen
  | EndTagName jstring

text \<open>
  The characters of a name, in lower case: letters, and after the first one also digits
  and the hyphen.
\<close>

definition name_char :: "nat \<Rightarrow> nat option" where
  "name_char c =
     (if 97 \<le> c \<and> c \<le> 122 then Some c
      else if 65 \<le> c \<and> c \<le> 90 then Some (c + 32)
      else if 48 \<le> c \<and> c \<le> 57 then Some c
      else if c = 45 then Some c
      else None)"

definition letter :: "nat \<Rightarrow> nat option" where
  "letter c =
     (if 97 \<le> c \<and> c \<le> 122 then Some c
      else if 65 \<le> c \<and> c \<le> 90 then Some (c + 32)
      else None)"

definition emit_text :: "jstring \<Rightarrow> token list \<Rightarrow> token list" where
  "emit_text s toks = (if s = [] then toks else toks @ [Chars s])"

text \<open>Of two attributes with the same name, the first one stays.\<close>

definition add_attribute ::
  "jstring \<Rightarrow> jstring \<Rightarrow> (jstring \<times> jstring) list \<Rightarrow> (jstring \<times> jstring) list" where
  "add_attribute a v ats = (if a \<in> fst ` set ats then ats else ats @ [(a, v)])"

text \<open>
  One character: \<open>60\<close> is \<^verbatim>\<open><\<close>, \<open>62\<close> is \<^verbatim>\<open>>\<close>, \<open>47\<close> is \<^verbatim>\<open>/\<close>, \<open>61\<close> is \<^verbatim>\<open>=\<close>, \<open>34\<close> is
  the double quote, \<open>38\<close> is \<^verbatim>\<open>&\<close>, \<open>13\<close> is the carriage return.
\<close>

fun step :: "token list \<times> tstate \<Rightarrow> nat \<Rightarrow> (token list \<times> tstate) option" where
  "step (toks, Data s) c =
     (if c = 60 then Some (emit_text s toks, TagOpen)
      else if c \<in> {0, 13, 38} then None
      else Some (toks, Data (s @ [c])))"
| "step (toks, TagOpen) c =
     (if c = 47 then Some (toks, EndTagOpen)
      else case letter c of None \<Rightarrow> None | Some l \<Rightarrow> Some (toks, TagName [l]))"
| "step (toks, TagName n) c =
     (if html_space c then Some (toks, BeforeAttributeName n [])
      else if c = 62 then Some (toks @ [StartTag n []], Data [])
      else case name_char c of None \<Rightarrow> None | Some l \<Rightarrow> Some (toks, TagName (n @ [l])))"
| "step (toks, BeforeAttributeName n ats) c =
     (if html_space c then Some (toks, BeforeAttributeName n ats)
      else if c = 62 then Some (toks @ [StartTag n ats], Data [])
      else case name_char c of None \<Rightarrow> None | Some l \<Rightarrow> Some (toks, AttributeName n ats [l]))"
| "step (toks, AttributeName n ats a) c =
     (if c = 61 then Some (toks, BeforeAttributeValue n ats a)
      else case name_char c of None \<Rightarrow> None | Some l \<Rightarrow> Some (toks, AttributeName n ats (a @ [l])))"
| "step (toks, BeforeAttributeValue n ats a) c =
     (if html_space c then Some (toks, BeforeAttributeValue n ats a)
      else if c = 34 then Some (toks, AttributeValue n ats a [])
      else None)"
| "step (toks, AttributeValue n ats a v) c =
     (if c = 34 then Some (toks, AfterAttributeValue n (add_attribute a v ats))
      else if c \<in> {0, 13, 38} then None
      else Some (toks, AttributeValue n ats a (v @ [c])))"
| "step (toks, AfterAttributeValue n ats) c =
     (if html_space c then Some (toks, BeforeAttributeName n ats)
      else if c = 62 then Some (toks @ [StartTag n ats], Data [])
      else None)"
| "step (toks, EndTagOpen) c =
     (case letter c of None \<Rightarrow> None | Some l \<Rightarrow> Some (toks, EndTagName [l]))"
| "step (toks, EndTagName n) c =
     (if c = 62 then Some (toks @ [EndTag n], Data [])
      else case name_char c of None \<Rightarrow> None | Some l \<Rightarrow> Some (toks, EndTagName (n @ [l])))"

fun steps :: "token list \<times> tstate \<Rightarrow> jstring \<Rightarrow> (token list \<times> tstate) option" where
  "steps q [] = Some q"
| "steps q (c # cs) = (case step q c of None \<Rightarrow> None | Some q' \<Rightarrow> steps q' cs)"

fun at_end :: "token list \<times> tstate \<Rightarrow> token list option" where
  "at_end (toks, Data s) = Some (emit_text s toks)"
| "at_end (toks, other) = None"

definition tokenize :: "jstring \<Rightarrow> token list option" where
  "tokenize s = (case steps ([], Data []) s of None \<Rightarrow> None | Some q \<Rightarrow> at_end q)"

text \<open>
  Tree construction, in the insertion mode \<^emph>\<open>in body\<close>: the stack of open elements, with the
  current node first, each with the children it has so far; the children of the root; and
  whether a line feed that comes next is dropped (it is, right after \<^verbatim>\<open><pre>\<close>).
\<close>

record frame =
  f_tag :: jstring
  f_attrs :: "(jstring \<times> jstring) list"
  f_kids :: "node list"

record builder =
  open_elements :: "frame list"
  top_level :: "node list"
  skip_newline :: bool

definition element_of :: "frame \<Rightarrow> node" where
  "element_of f =
     Elem (f_tag f) (map_of (f_attrs f) (lit ''id''))
       (case map_of (f_attrs f) (lit ''class'') of None \<Rightarrow> [] | Some c \<Rightarrow> c) []
       (filter (\<lambda>(a, v). a \<noteq> lit ''id'' \<and> a \<noteq> lit ''class'') (f_attrs f))
       (f_kids f)"

text \<open>Characters go into the text node that is the last child, or into a new one.\<close>

fun append_text :: "jstring \<Rightarrow> node list \<Rightarrow> node list" where
  "append_text s [] = [Text (Plain s)]"
| "append_text s [Text (Plain t)] = [Text (Plain (t @ s))]"
| "append_text s (k # k' # ks) = k # append_text s (k' # ks)"
| "append_text s [k] = [k, Text (Plain s)]"

definition insert_node :: "(node list \<Rightarrow> node list) \<Rightarrow> builder \<Rightarrow> builder" where
  "insert_node g b =
     (case open_elements b of
        [] \<Rightarrow> b\<lparr>top_level := g (top_level b)\<rparr>
      | f # fs \<Rightarrow> b\<lparr>open_elements := f\<lparr>f_kids := g (f_kids f)\<rparr> # fs\<rparr>)"

definition pop_element :: "builder \<Rightarrow> builder" where
  "pop_element b =
     (case open_elements b of
        [] \<Rightarrow> b
      | f # fs \<Rightarrow> insert_node (\<lambda>ks. ks @ [element_of f]) (b\<lparr>open_elements := fs\<rparr>))"

text \<open>Pop until an element with the tag \<open>n\<close> has been popped (at most \<open>k\<close> elements).\<close>

fun pop_until :: "jstring \<Rightarrow> nat \<Rightarrow> builder \<Rightarrow> builder" where
  "pop_until n 0 b = b"
| "pop_until n (Suc k) b =
     (case open_elements b of
        [] \<Rightarrow> b
      | f # fs \<Rightarrow> if f_tag f = n then pop_element b else pop_until n k (pop_element b))"

text \<open>
  The end tag of \<^verbatim>\<open>div\<close>, \<^verbatim>\<open>pre\<close> or \<^verbatim>\<open>h3\<close>: ignored when no such element is open,
  and closing every element opened inside it otherwise.
\<close>

definition close_element :: "jstring \<Rightarrow> builder \<Rightarrow> builder" where
  "close_element n b =
     (if n \<in> f_tag ` set (open_elements b) then pop_until n (length (open_elements b)) b else b)"

definition supported :: "jstring \<Rightarrow> bool" where
  "supported n \<longleftrightarrow> n \<in> {lit ''div'', lit ''h3'', lit ''pre'', lit ''span''}"

definition open_element :: "jstring \<Rightarrow> (jstring \<times> jstring) list \<Rightarrow> builder \<Rightarrow> builder" where
  "open_element n ats b =
     b\<lparr>open_elements := \<lparr>f_tag = n, f_attrs = ats, f_kids = []\<rparr> # open_elements b\<rparr>"

text \<open>
  One token. A heading that starts inside a heading closes that one first; the end tag of
  \<^verbatim>\<open>span\<close> closes the current node when that is a \<^verbatim>\<open>span\<close> and is ignored otherwise (every
  other element here is \<^emph>\<open>special\<close>). An element with a \<^verbatim>\<open>style\<close> attribute is not
  described: its inline style would have to be parsed as well.
\<close>

fun build :: "builder \<Rightarrow> token \<Rightarrow> builder option" where
  "build b (Chars s) =
     (let s' = (if skip_newline b \<and> s \<noteq> [] \<and> hd s = 10 then tl s else s)
      in Some ((if s' = [] then b else insert_node (append_text s') b)\<lparr>skip_newline := False\<rparr>))"
| "build b (StartTag n ats) =
     (if \<not> supported n \<or> lit ''style'' \<in> fst ` set ats then None
      else if n = lit ''h3'' then
        Some (open_element n ats
               (case open_elements b of
                  [] \<Rightarrow> b
                | f # fs \<Rightarrow> if f_tag f = lit ''h3'' then pop_element b else b)\<lparr>skip_newline := False\<rparr>)
      else Some ((open_element n ats b)\<lparr>skip_newline := (n = lit ''pre'')\<rparr>))"
| "build b (EndTag n) =
     (if \<not> supported n then None
      else if n = lit ''span'' then
        Some ((case open_elements b of
                 [] \<Rightarrow> b
               | f # fs \<Rightarrow> if f_tag f = lit ''span'' then pop_element b else b)\<lparr>skip_newline := False\<rparr>)
      else Some ((close_element n b)\<lparr>skip_newline := False\<rparr>))"

fun builds :: "builder \<Rightarrow> token list \<Rightarrow> builder option" where
  "builds b [] = Some b"
| "builds b (t # ts) = (case build b t of None \<Rightarrow> None | Some b' \<Rightarrow> builds b' ts)"

text \<open>At the end of the input the elements that are still open stay in the tree.\<close>

fun pop_all :: "nat \<Rightarrow> builder \<Rightarrow> builder" where
  "pop_all 0 b = b"
| "pop_all (Suc k) b = pop_all k (pop_element b)"

definition parse_fragment :: "jstring \<Rightarrow> node list option" where
  "parse_fragment s =
     (case tokenize s of
        None \<Rightarrow> None
      | Some toks \<Rightarrow>
          (case builds \<lparr>open_elements = [], top_level = [], skip_newline = False\<rparr> toks of
             None \<Rightarrow> None
           | Some b \<Rightarrow> Some (top_level (pop_all (length (open_elements b)) b))))"




text \<open>
  The error panel as a tree, for a message that is plain text: the white space of the
  template, and the \<^verbatim>\<open>div\<close> with the heading and the \<^verbatim>\<open>pre\<close> that holds the message.
\<close>

definition panel_outer_space :: jstring where
  "panel_outer_space = 10 # replicate 18 32"

definition panel_inner_space :: jstring where
  "panel_inner_space = 10 # replicate 20 32"

definition panel_tree :: "jstring \<Rightarrow> node list" where
  "panel_tree message =
     [Text (Plain panel_outer_space),
      jsx ''div'' ''p-4 bg-red-50 dark:bg-red-900/20 rounded-lg border border-red-200 dark:border-red-800''
        [Text (Plain panel_inner_space),
         jsx ''h3'' ''text-red-600 dark:text-red-400 font-medium'' [Text (Plain (lit ''Rendering Error''))],
         Text (Plain panel_inner_space),
         jsx ''pre'' ''mt-2 text-sm text-red-800 dark:text-red-300 overflow-auto''
           (if message = [] then [] else [Text (Plain message)]),
         Text (Plain panel_outer_space)]]"


subsection \<open>The export button\<close>

text \<open>
  \<^verbatim>\<open>
  const svg = containerRef.current?.querySelector(`#mindmap-${index} svg`);
  if (svg) {
    const svgData = new XMLSerializer().serializeToString(svg);
    const blob = new Blob([svgData], { type: 'image/svg+xml' });
    const url = URL.createObjectURL(blob);
    const link = document.createElement('a');
    link.href = url;
    link.download = `${mindmap.title.replace(/\s+/g, '_')}_mindmap.svg`;
    document.body.appendChild(link);
    link.click();
    document.body.removeChild(link);
    URL.revokeObjectURL(url);
  }
  \<close>
  The page around the component: the children of \<^verbatim>\<open>document.body\<close> and the live object
  URLs, both by identity (a fresh number for each created node and URL), and the downloads
  that were started, each with its file name and with the blob behind its URL at that time.
\<close>

record blob =
  content :: jstring
  mime :: jstring

record browser =
  body_children :: "nat list"
  next_node :: nat
  object_urls :: "(nat \<times> blob) list"
  next_url :: nat
  downloads :: "(jstring \<times> blob option) list"

text \<open>The class \<^verbatim>\<open>\s\<close> of a regular expression.\<close>

definition is_space :: "nat \<Rightarrow> bool" where
  "is_space c \<longleftrightarrow>
     c \<in> {9, 10, 11, 12, 13, 32, 160, 5760, 8232, 8233, 8239, 8287, 12288, 65279}
     \<or> (8192 \<le> c \<and> c \<le> 8202)"

text \<open>\<^verbatim>\<open>s.replace(/\s+/g, '_')\<close>: every maximal run of white space becomes one underscore.\<close>

function replace_spaces :: "jstring \<Rightarrow> jstring" where
  "replace_spaces [] = []"
| "replace_spaces (c # cs) =
     (if is_space c then 95 # replace_spaces (dropWhile is_space cs) else c # replace_spaces cs)"
  by pat_completeness auto
termination
  by (relation "measure length") (auto simp: less_Suc_eq_le length_dropWhile_le)

definition download_name :: "jstring \<Rightarrow> jstring" where
  "download_name t = replace_spaces t @ lit ''_mindmap.svg''"

definition createObjectURL :: "blob \<Rightarrow> browser \<Rightarrow> nat \<times> browser" where
  "createObjectURL b w =
     (next_url w, w\<lparr>object_urls := (next_url w, b) # object_urls w, next_url := Suc (next_url w)\<rparr>)"

definition revokeObjectURL :: "nat \<Rightarrow> browser \<Rightarrow> browser" where
  "revokeObjectURL u w = w\<lparr>object_urls := filter (\<lambda>(v, b). v \<noteq> u) (object_urls w)\<rparr>"

definition createElement :: "browser \<Rightarrow> nat \<times> browser" where
  "createElement w = (next_node w, w\<lparr>next_node := Suc (next_node w)\<rparr>)"

definition appendChild :: "nat \<Rightarrow> browser \<Rightarrow> browser" where
  "appendChild n w = w\<lparr>body_children := filter (\<lambda>m. m \<noteq> n) (body_children w) @ [n]\<rparr>"

definition removeChild :: "nat \<Rightarrow> browser \<Rightarrow> browser" where
  "removeChild n w = w\<lparr>body_children := filter (\<lambda>m. m \<noteq> n) (body_children w)\<rparr>"

text \<open>\<^verbatim>\<open>link.click()\<close> on an anchor with \<^verbatim>\<open>href\<close> and \<^verbatim>\<open>download\<close> set.\<close>

definition click_link :: "nat \<Rightarrow> jstring \<Rightarrow> browser \<Rightarrow> browser" where
  "click_link href name w = w\<lparr>downloads := downloads w @ [(name, map_of (object_urls w) href)]\<rparr>"

text \<open>\<^verbatim>\<open>containerRef.current?.querySelector(`#mindmap-${index} svg`)\<close>.\<close>

definition find_export_svg :: "env \<Rightarrow> nat \<Rightarrow> node \<Rightarrow> node option" where
  "find_export_svg e index container =
     (case select_under (mindmap_key index) (has_tag [lit ''svg''])
             (mindmap_key index \<in> set (outer_ids e)) container of
        [] \<Rightarrow> None
      | p # ps \<Rightarrow> get_at container p)"

definition export_click :: "env \<Rightarrow> Mindmap \<Rightarrow> nat \<Rightarrow> node \<Rightarrow> browser \<Rightarrow> browser" where
  "export_click e mindmap index container w =
     (case find_export_svg e index container of
        None \<Rightarrow> w
      | Some svg \<Rightarrow>
          (let svgData = serializeToString e svg;
               b = \<lparr>content = svgData, mime = lit ''image/svg+xml''\<rparr>;
               (url, w1) = createObjectURL b w;
               (link, w2) = createElement w1;
               w3 = appendChild link w2;
               w4 = click_link url (download_name (title mindmap)) w3;
               w5 = removeChild link w4
           in revokeObjectURL url w5))"

text \<open>Every child of the body and every live URL was created before.\<close>

definition browser_ok :: "browser \<Rightarrow> bool" where
  "browser_ok w \<longleftrightarrow>
     (\<forall>n \<in> set (body_children w). n < next_node w)
     \<and> (\<forall>u \<in> fst ` set (object_urls w). u < next_url w)"

subsection \<open>Example data\<close>

text \<open>
  A page without further ids, where \<^verbatim>\<open><NeonBorder />\<close> renders one empty \<^verbatim>\<open>div\<close>, and a
  rendering library that answers every call with \<^verbatim>\<open><svg id="mindmap-0"><g></g></svg>\<close>:
  as the library does, the root of the diagram carries the id given to \<^verbatim>\<open>render\<close>.
\<close>

definition svg_text :: jstring where
  \<open>svg_text = lit ''<svg id="mindmap-0"><g></g></svg>''\<close>

definition svg_tree :: node where
  "svg_tree = Elem (lit ''svg'') (Some (lit ''mindmap-0'')) [] [] [] [Elem (lit ''g'') None [] [] [] []]"

definition page :: env where
  "page =
     \<lparr>the_engine = some_engine, dark = False,
      NeonBorder = [jsx ''div'' ''neon-border'' []],
      parse_html = (\<lambda>s. if s = svg_text then [svg_tree] else []),
      outer_ids = [lit ''root''],
      serializeToString = (\<lambda>n. svg_text)\<rparr>"

definition one_map :: MindmapViewerProps where
  "one_map =
     \<lparr>mindmaps = Some [\<lparr>title = lit ''My  first map'', code = lit ''mindmap root((A))''\<rparr>],
      processingTime = None\<rparr>"

definition two_maps :: MindmapViewerProps where
  "two_maps =
     \<lparr>mindmaps = Some [\<lparr>title = lit ''A'', code = lit ''mindmap a''\<rparr>,
                        \<lparr>title = lit ''B'', code = lit ''mindmap b''\<rparr>],
      processingTime = Some (3 / 2)\<rparr>"

definition renders_svg :: mermaid where
  "renders_svg key src = Resolved svg_text"


definition empty_page :: browser where
  "empty_page = \<lparr>body_children = [0], next_node = 1, object_urls = [], next_url = 0, downloads = []\<rparr>"

text \<open>
  The first example, step by step: the state after mounting, its only timer, the state after
  that timer has fired and the diagram is rendered, and the state after one click on the plus
  button of the diagram.
\<close>

definition mounted_one :: state where
  "mounted_one = \<lparr>zooms = Map.empty, dom = MindmapViewer_render page one_map, console = []\<rparr>"

definition first_timer :: timer where
  "first_timer = \<lparr>delay = 0, idx = 0, target = [0, 3], captured = Map.empty\<rparr>"

definition rendered_one :: state where
  "rendered_one = snd (fire page one_map renders_svg first_timer mounted_one)"

definition after_zoom_in :: state where
  "after_zoom_in = zoom_click_on (ZoomIn 0) rendered_one"

text \<open>A container in which the diagram sits inside an element that carries the id.\<close>

definition wrapped_svg :: node where
  "wrapped_svg = Elem (lit ''div'') (Some (lit ''mindmap-0'')) [] [] [] [svg_tree]"





section \<open>Properties of the values\<close>

lemma lit_inject: "lit a = lit b \<longleftrightarrow> a = b"
proof -
  have "inj (of_char :: char \<Rightarrow> nat)"
    by (rule injI) (metis char_of_char)
  then show ?thesis
    by (auto simp: lit_def dest: inj_mapD[rotated] intro: inj_mapI)
qed

subsection \<open>Decimal printing is injective\<close>

lemma show_nat_last: "show_nat n \<noteq> [] \<and> last (show_nat n) = 48 + n mod 10"
  by (subst show_nat.simps, subst (2) show_nat.simps) auto

lemma show_nat_butlast: "butlast (show_nat n) = (if n < 10 then [] else show_nat (n div 10))"
  by (subst show_nat.simps) (auto simp: butlast_append)

lemma show_nat_inj: "show_nat m = show_nat n \<Longrightarrow> m = n"
proof (induction m arbitrary: n rule: show_nat.induct)
  case (1 m)
  have l: "m mod 10 = n mod 10"
    using show_nat_last[of m] show_nat_last[of n] "1.prems" by simp
  have b: "butlast (show_nat m) = butlast (show_nat n)"
    using "1.prems" by simp
  show ?case
  proof (cases "m < 10")
    case True
    then have "n < 10"
      using b show_nat_last[of "n div 10"] by (auto simp: show_nat_butlast split: if_splits)
    with True l show ?thesis by simp
  next
    case False
    then have n: "\<not> n < 10"
      using b show_nat_last[of "m div 10"] by (auto simp: show_nat_butlast split: if_splits)
    with False b have "show_nat (m div 10) = show_nat (n div 10)"
      by (simp add: show_nat_butlast)
    with "1.IH" False have "m div 10 = n div 10" by blast
    with l show ?thesis
      by (metis div_mult_mod_eq)
  qed
qed

lemma mindmap_key_inj: "mindmap_key i = mindmap_key j \<longleftrightarrow> i = j"
  by (auto simp: mindmap_key_def dest: show_nat_inj)

subsection \<open>Rounding to a double\<close>

lemma bitlen_powi:
  assumes "0 < a"
  shows "(2::rat) powi (bitlen a - 1) \<le> of_int a" and "of_int a < (2::rat) powi (bitlen a)"
proof -
  have l: "1 \<le> bitlen a"
    using assms by (auto simp: bitlen_alt_def)
  have "(2::int) ^ nat (bitlen a - 1) \<le> a" and "a < 2 ^ nat (bitlen a)"
    using bitlen_bounds[OF assms] by auto
  then have "(of_int (2 ^ nat (bitlen a - 1)) :: rat) \<le> of_int a"
    and "(of_int a :: rat) < of_int (2 ^ nat (bitlen a))"
    by (simp_all only: of_int_le_iff of_int_less_iff)
  then show "(2::rat) powi (bitlen a - 1) \<le> of_int a" and "of_int a < (2::rat) powi (bitlen a)"
    using l by (simp_all add: power_int_def)
qed

lemma ilog2_bounds:
  assumes "0 < x"
  shows "2 powi (ilog2 x) \<le> x" and "x < 2 powi (ilog2 x + 1)"
proof -
  obtain a b where q: "quotient_of x = (a, b)" by (cases "quotient_of x")
  then have b: "0 < b" and x: "x = of_int a / of_int b"
    using quotient_of_denom_pos quotient_of_div by auto
  with assms have a: "0 < a"
    by (simp add: zero_less_divide_iff)
  define d where "d = bitlen a - bitlen b"
  have "x < 2 powi (bitlen a) / 2 powi (bitlen b - 1)"
    unfolding x using a b bitlen_powi[OF a] bitlen_powi[OF b]
    by (intro frac_less) auto
  also have "\<dots> = 2 powi (d + 1)"
    by (simp add: d_def power_int_diff [symmetric] algebra_simps)
  finally have up: "x < 2 powi (d + 1)" .
  have "2 powi (bitlen a - 1) / 2 powi (bitlen b) \<le> x"
    unfolding x using a b bitlen_powi[OF a] bitlen_powi[OF b]
    by (intro frac_le) auto
  moreover have "2 powi (bitlen a - 1) / 2 powi (bitlen b) = (2::rat) powi (d - 1)"
    by (simp add: d_def power_int_diff [symmetric] algebra_simps)
  ultimately have lo: "2 powi (d - 1) \<le> x" by simp
  have i: "ilog2 x = (if 2 powi d \<le> x then d else d - 1)"
    by (simp add: ilog2_def q d_def Let_def)
  show "2 powi (ilog2 x) \<le> x"
    using lo by (simp add: i)
  show "x < 2 powi (ilog2 x + 1)"
    using up by (auto simp add: i not_le)
qed

lemma round_even_bounds:
  shows "of_int (round_even q) \<le> q + 1 / 2" and "q - 1 / 2 \<le> of_int (round_even q)"
  unfolding round_even_def Let_def by (auto; linarith)+

lemma round_even_ge: "of_int n \<le> q \<Longrightarrow> n \<le> round_even q"
  unfolding round_even_def Let_def by (auto simp: le_floor_iff; linarith)

lemma round_even_le:
  assumes "q \<le> of_int n"
  shows "round_even q \<le> n"
proof -
  have f: "\<lfloor>q\<rfloor> \<le> n"
    using assms by (simp add: floor_le_iff)
  have "\<lfloor>q\<rfloor> + 1 \<le> n" if "0 < q - of_int \<lfloor>q\<rfloor>"
  proof -
    have "(of_int \<lfloor>q\<rfloor> :: rat) < of_int n"
      using that assms by linarith
    then show ?thesis by simp
  qed
  then show ?thesis
    using f unfolding round_even_def Let_def by auto
qed

lemma fl_pos_eq:
  assumes "0 < x" and "- 1022 \<le> ilog2 x"
  shows "fl x = of_int (round_even (x / 2 powi (ilog2 x - 52))) * 2 powi (ilog2 x - 52)"
  using assms by (simp add: fl_def Let_def max_def)

lemma fl_binade:
  assumes "0 < x" and "- 1022 \<le> ilog2 x"
  shows "2 powi (ilog2 x) \<le> fl x" and "fl x \<le> 2 powi (ilog2 x + 1)"
proof -
  define e where "e = ilog2 x"
  define u :: rat where "u = 2 powi (e - 52)"
  have u: "0 < u" by (simp add: u_def)
  have p: "2 powi e = 2 ^ 52 * u" "2 powi (e + 1) = 2 ^ 53 * u"
    by (simp_all add: u_def power_int_diff power_int_add)
  have "2 ^ 52 * u \<le> x" "x < 2 ^ 53 * u"
    using ilog2_bounds[OF assms(1)] by (simp_all add: e_def [symmetric] p)
  then have "of_int (2 ^ 52) \<le> x / u" "x / u \<le> of_int (2 ^ 53)"
    using u by (simp_all add: field_simps)
  then have "2 ^ 52 \<le> round_even (x / u)" "round_even (x / u) \<le> 2 ^ 53"
    by (simp_all only: round_even_ge round_even_le)
  then have "(of_int (2 ^ 52) :: rat) \<le> of_int (round_even (x / u))"
    "(of_int (round_even (x / u)) :: rat) \<le> of_int (2 ^ 53)"
    by (simp_all only: of_int_le_iff)
  then have "2 ^ 52 * u \<le> of_int (round_even (x / u)) * u"
    "of_int (round_even (x / u)) * u \<le> 2 ^ 53 * u"
    using u by simp_all
  then show "2 powi (ilog2 x) \<le> fl x" and "fl x \<le> 2 powi (ilog2 x + 1)"
    using assms by (simp_all add: fl_pos_eq e_def [symmetric] u_def [symmetric] p)
qed

lemma fl_error:
  assumes "0 < x" and "- 1022 \<le> ilog2 x"
  shows "\<bar>fl x - x\<bar> \<le> 2 powi (ilog2 x - 53)"
proof -
  define e where "e = ilog2 x"
  define u :: rat where "u = 2 powi (e - 52)"
  have u: "0 < u" by (simp add: u_def)
  have h: "2 powi (e - 53) = u / 2"
    by (simp add: u_def power_int_diff)
  have "\<bar>of_int (round_even (x / u)) - x / u\<bar> \<le> 1 / 2"
    using round_even_bounds(1)[of "x / u"] round_even_bounds(2)[of "x / u"] by linarith
  then have "\<bar>of_int (round_even (x / u)) - x / u\<bar> * u \<le> 1 / 2 * u"
    using u by (intro mult_right_mono) auto
  moreover have "(of_int (round_even (x / u)) - x / u) * u = of_int (round_even (x / u)) * u - x"
    using u by (simp add: field_simps)
  then have "\<bar>of_int (round_even (x / u)) - x / u\<bar> * u = \<bar>of_int (round_even (x / u)) * u - x\<bar>"
    using u by (metis abs_mult abs_of_pos)
  ultimately show ?thesis
    using assms by (simp add: fl_pos_eq e_def [symmetric] u_def [symmetric] h)
qed

lemma ilog2_le:
  assumes "0 < x" and "x < 2 powi n"
  shows "ilog2 x < n"
proof (rule ccontr)
  assume "\<not> ilog2 x < n"
  then have "(2::rat) powi n \<le> 2 powi (ilog2 x)"
    by (intro power_int_increasing) auto
  with ilog2_bounds(1)[OF assms(1)] assms(2) show False by simp
qed

lemma ilog2_ge:
  assumes "2 powi n \<le> x"
  shows "n \<le> ilog2 x"
proof (rule ccontr)
  have x: "0 < x"
    using assms zero_less_power_int[of "2::rat" n] by linarith
  assume "\<not> n \<le> ilog2 x"
  then have "(2::rat) powi (ilog2 x + 1) \<le> 2 powi n"
    by (intro power_int_increasing) auto
  with ilog2_bounds(2)[OF x] assms show False by simp
qed

lemma num_0_1_eq: "num_0_1 = 3602879701896397 / 36028797018963968"
  unfolding num_0_1_def by code_simp

lemma fl_ge_pow:
  assumes "2 powi n \<le> x" and "- 1022 \<le> n"
  shows "2 powi n \<le> fl x"
proof -
  have x: "0 < x"
    using assms(1) zero_less_power_int[of "2::rat" n] by linarith
  have n: "n \<le> ilog2 x"
    by (rule ilog2_ge) fact
  then have "(2::rat) powi n \<le> 2 powi (ilog2 x)"
    by (intro power_int_increasing) auto
  also have "\<dots> \<le> fl x"
    using x n assms(2) by (intro fl_binade) auto
  finally show ?thesis .
qed

lemma fl_le_pow:
  assumes "2 powi m \<le> x" and "- 1022 \<le> m" and "x < 2 powi n"
  shows "fl x \<le> 2 powi n"
proof -
  have x: "0 < x"
    using assms(1) zero_less_power_int[of "2::rat" m] by linarith
  have m: "m \<le> ilog2 x"
    by (rule ilog2_ge) fact
  have "ilog2 x < n"
    using x assms(3) by (rule ilog2_le)
  then have "(2::rat) powi (ilog2 x + 1) \<le> 2 powi n"
    by (intro power_int_increasing) auto
  moreover have "fl x \<le> 2 powi (ilog2 x + 1)"
    using x m assms(2) by (intro fl_binade) auto
  ultimately show ?thesis by simp
qed

lemma fl_error_pow:
  assumes "2 powi m \<le> x" and "- 1022 \<le> m" and "x < 2 powi n"
  shows "\<bar>fl x - x\<bar> \<le> 2 powi (n - 54)"
proof -
  have x: "0 < x"
    using assms(1) zero_less_power_int[of "2::rat" m] by linarith
  have m: "m \<le> ilog2 x"
    by (rule ilog2_ge) fact
  have "ilog2 x < n"
    using x assms(3) by (rule ilog2_le)
  then have "(2::rat) powi (ilog2 x - 53) \<le> 2 powi (n - 54)"
    by (intro power_int_increasing) auto
  moreover have "\<bar>fl x - x\<bar> \<le> 2 powi (ilog2 x - 53)"
    using x m assms(2) by (intro fl_error) auto
  ultimately show ?thesis by simp
qed

text \<open>Doubles are fixed points of the rounding; \<^verbatim>\<open>Math.round\<close> rounds a tie up.\<close>

lemma fl_exact_examples:
  "fl 1 = 1" "fl 2 = 2" "fl (1 / 2) = 1 / 2" "fl 100 = 100" "fl (3 / 1024) = 3 / 1024"
  by code_simp+

lemma Math_round_examples:
  "Math_round (5 / 2) = 3" "Math_round (- 5 / 2) = - 2" "Math_round (12 / 5) = 2"
  by code_simp+

section \<open>Properties of the upload client\<close>

text \<open>A success response resolves with the parsed body, and nothing is logged.\<close>

lemma uploadPDF_success:
  assumes "fetch (upload_request file) = Inr r" and "ok r" and "json_body r = Inr v"
  shows "uploadPDF js fetch file = ([], Inr v)"
  using assms by (simp add: uploadPDF_def upload_try_def)

text \<open>
  C1, as stated, fails: with a non-success status and a body that is not JSON, the promise
  rejects with the error of \<^verbatim>\<open>response.json()\<close>, not with the generic message.
\<close>

theorem uploadPDF_unparseable_counterexample:
  "snd (uploadPDF some_engine unparseable_400 ()) =
     Inl (Thrown SyntaxError (lit ''Unexpected end of JSON input''))
   \<and> lit ''Unexpected end of JSON input'' \<noteq> fallback_message"
  by (simp add: uploadPDF_def upload_try_def unparseable_400_def fallback_message_def lit_inject)

text \<open>
  C1, amended: a call that receives a non-success response always rejects, and the rejection
  is logged. When the body parses to an object whose field \<^verbatim>\<open>error\<close> is a non-empty
  string, the message is that string. When the body parses to a value other than \<^verbatim>\<open>null\<close>
  whose field \<^verbatim>\<open>error\<close> is absent or falsy (the empty string included), the message is
  the generic \<^verbatim>\<open>'Failed to upload file'\<close>. When the body does not parse, the promise
  rejects with the parser's own error.
\<close>

theorem uploadPDF_non_success:
  assumes "fetch (upload_request file) = Inr r" and "\<not> ok r"
  shows "\<exists>err. uploadPDF js fetch file = ([err], Inl err)
    \<and> (\<forall>d s. json_body r = Inr d \<and> get_error_field js d = Inr (Some (JStr s)) \<and> s \<noteq> []
          \<longrightarrow> err = Thrown JsError s)
    \<and> (\<forall>d x. json_body r = Inr d \<and> get_error_field js d = Inr x
            \<and> (case x of None \<Rightarrow> True | Some v \<Rightarrow> \<not> truthy v)
          \<longrightarrow> err = Thrown JsError fallback_message)
    \<and> (\<forall>p. json_body r = Inl p \<longrightarrow> err = p)"
  using assms
  by (auto simp: uploadPDF_def upload_try_def error_or_fallback_def
           split: sum.splits option.splits)

theorem uploadPDF_non_success_witness:
  "uploadPDF some_engine bad_file_400 () =
     ([Thrown JsError (lit ''bad file'')], Inl (Thrown JsError (lit ''bad file'')))"
proof -
  let ?r = "\<lparr>ok = False, json_body = Inr (JObj [(lit ''error'', JStr (lit ''bad file''))])\<rparr>"
  have f: "bad_file_400 (upload_request ()) = Inr ?r"
    by (simp add: bad_file_400_def)
  have g: "get_error_field some_engine (JObj [(lit ''error'', JStr (lit ''bad file''))])
             = Inr (Some (JStr (lit ''bad file'')))"
    by simp
  have n: "lit ''bad file'' \<noteq> []"
    by (simp add: lit_def)
  have k: "\<not> ok ?r"
    by simp
  from uploadPDF_non_success [of bad_file_400 "()" ?r some_engine, OF f k] g n show ?thesis
    by auto
qed

section \<open>Properties of the zoom controls\<close>

lemma zoom_in_scale_range:
  assumes "1 / 2 \<le> c" and "c \<le> 2"
  shows "1 / 2 \<le> min 2 (js_add c num_0_1)" and "min 2 (js_add c num_0_1) \<le> 2"
proof -
  have "2 powi (- 1) \<le> c + num_0_1"
    using assms by (simp add: num_0_1_eq power_int_minus)
  then have "2 powi (- 1) \<le> fl (c + num_0_1)"
    by (rule fl_ge_pow) simp
  then show "1 / 2 \<le> min 2 (js_add c num_0_1)"
    by (simp add: js_add_def power_int_minus)
  show "min 2 (js_add c num_0_1) \<le> 2"
    by simp
qed

lemma zoom_out_scale_range:
  assumes "1 / 2 \<le> c" and "c \<le> 2"
  shows "1 / 2 \<le> max (1 / 2) (js_sub c num_0_1)" and "max (1 / 2) (js_sub c num_0_1) \<le> 2"
proof -
  show "1 / 2 \<le> max (1 / 2) (js_sub c num_0_1)"
    by simp
  have "2 powi (- 2) \<le> c - num_0_1" and "c - num_0_1 < 2 powi 1"
    using assms by (simp_all add: num_0_1_eq power_int_minus)
  then have "fl (c - num_0_1) \<le> 2 powi 1"
    by (intro fl_le_pow[where m = "- 2"]) auto
  then show "max (1 / 2) (js_sub c num_0_1) \<le> 2"
    by (simp add: js_sub_def)
qed

lemma abs_two_steps:
  fixes y :: rat
  assumes "\<bar>y - (c + t)\<bar> \<le> e" and "\<bar>t - d\<bar> \<le> e"
  shows "\<bar>y - (c + d)\<bar> \<le> 2 * e"
  using assms by linarith

lemma zoom_in_step:
  assumes "1 / 2 \<le> c" and "c \<le> 2"
  shows "\<bar>min 2 (js_add c num_0_1) - min 2 (c + 1 / 10)\<bar> \<le> 1 / 2 ^ 51"
proof -
  have "2 powi (- 1) \<le> c + num_0_1" and "c + num_0_1 < 2 powi 2"
    using assms by (simp_all add: num_0_1_eq power_int_minus)
  then have "\<bar>fl (c + num_0_1) - (c + num_0_1)\<bar> \<le> 2 powi (2 - 54)"
    by (intro fl_error_pow[where m = "- 1"]) auto
  then have "\<bar>fl (c + num_0_1) - (c + num_0_1)\<bar> \<le> 1 / 2 ^ 52"
    by (simp add: power_int_minus field_simps)
  moreover have "\<bar>num_0_1 - 1 / 10\<bar> \<le> 1 / 2 ^ 52"
    by (simp add: num_0_1_eq)
  ultimately have "\<bar>fl (c + num_0_1) - (c + 1 / 10)\<bar> \<le> 2 * (1 / 2 ^ 52)"
    by (rule abs_two_steps)
  then have "\<bar>fl (c + num_0_1) - (c + 1 / 10)\<bar> \<le> 1 / 2 ^ 51"
    by simp
  then show ?thesis
    unfolding js_add_def by linarith
qed

lemma zoom_out_step:
  assumes "1 / 2 \<le> c" and "c \<le> 2"
  shows "\<bar>max (1 / 2) (js_sub c num_0_1) - max (1 / 2) (c - 1 / 10)\<bar> \<le> 1 / 2 ^ 51"
proof -
  have "2 powi (- 2) \<le> c - num_0_1" and "c - num_0_1 < 2 powi 2"
    using assms by (simp_all add: num_0_1_eq power_int_minus)
  then have "\<bar>fl (c - num_0_1) - (c - num_0_1)\<bar> \<le> 2 powi (2 - 54)"
    by (intro fl_error_pow[where m = "- 2"]) auto
  then have "\<bar>fl (c - num_0_1) - (c - num_0_1)\<bar> \<le> 1 / 2 ^ 52"
    by (simp add: power_int_minus field_simps)
  then have "\<bar>fl (c - num_0_1) - (c + - num_0_1)\<bar> \<le> 1 / 2 ^ 52"
    by simp
  moreover have "\<bar>- num_0_1 - (- (1 / 10))\<bar> \<le> 1 / 2 ^ 52"
    by (simp add: num_0_1_eq)
  ultimately have "\<bar>fl (c - num_0_1) - (c + - (1 / 10))\<bar> \<le> 2 * (1 / 2 ^ 52)"
    by (rule abs_two_steps)
  then have "\<bar>fl (c - num_0_1) - (c - 1 / 10)\<bar> \<le> 1 / 2 ^ 51"
    by simp
  then show ?thesis
    unfolding js_sub_def by linarith
qed

lemma scale_or_1_range:
  assumes "scales_in_range zs"
  shows "1 / 2 \<le> scale_or_1 zs i" and "scale_or_1 zs i \<le> 2"
  using assms by (auto simp: scales_in_range_def scale_or_1_def split: option.splits)

lemma click_in_range:
  assumes "scales_in_range zs"
  shows "scales_in_range (click zs c)"
proof (cases c)
  case (ZoomOut i)
  then show ?thesis
    using assms zoom_out_scale_range[OF scale_or_1_range[OF assms], of i]
    by (auto simp: scales_in_range_def zoom_out_def Let_def)
next
  case (ZoomIn i)
  then show ?thesis
    using assms zoom_in_scale_range[OF scale_or_1_range[OF assms], of i]
    by (auto simp: scales_in_range_def zoom_in_def Let_def)
qed

lemma clicks_snoc: "clicks (cs @ [c]) = click (clicks cs) c"
  by (simp add: clicks_def)

lemma clicks_in_range: "scales_in_range (clicks cs)"
proof (induction cs rule: rev_induct)
  case Nil
  show ?case by (simp add: clicks_def scales_in_range_def)
next
  case (snoc c cs)
  then show ?case by (simp add: clicks_snoc click_in_range)
qed

lemma min_2_js_add_nonzero:
  assumes "1 / 2 \<le> c" and "c \<le> 2"
  shows "min 2 (js_add c num_0_1) \<noteq> 0"
  using zoom_in_scale_range(1)[OF assms] by linarith

lemma scale_or_1_upd:
  "scale_or_1 (zs(mindmap_key i \<mapsto> z)) i = (if scale z = 0 then 1 else scale z)"
  by (simp add: scale_or_1_def)

lemma scale_or_1_zoom_in:
  assumes "scales_in_range zs"
  shows "scale_or_1 (zoom_in zs i zs) i = min 2 (js_add (scale_or_1 zs i) num_0_1)"
  using min_2_js_add_nonzero[OF scale_or_1_range[OF assms], of i]
  by (simp add: zoom_in_def Let_def scale_or_1_upd)

lemma scale_or_1_zoom_out:
  "scale_or_1 (zoom_out zs i zs) i = max (1 / 2) (js_sub (scale_or_1 zs i) num_0_1)"
proof -
  have "max (1 / 2) (js_sub (scale_or_1 zs i) num_0_1) \<noteq> 0"
    by (simp add: max_def)
  then show ?thesis
    by (simp add: zoom_out_def Let_def scale_or_1_upd)
qed

text \<open>
  C3, as stated, fails: two clicks on the plus button of a fresh diagram store the double
  1.1 and then 1.2000000000000002, which is not the double 1.2. The second click does not
  change the stored scale by 0.1: the difference is neither one tenth nor the double
  \<^verbatim>\<open>0.1\<close>, also when it is computed in doubles; and the clamp is not in play.
\<close>

theorem zoom_step_counterexample:
  "scale_or_1 (clicks [ZoomIn 0]) 0 = 2476979795053773 / 2251799813685248
   \<and> scale_or_1 (clicks [ZoomIn 0, ZoomIn 0]) 0 = 1351079888211149 / 1125899906842624
   \<and> scale_or_1 (clicks [ZoomIn 0, ZoomIn 0]) 0 \<noteq> fl (12 / 10)
   \<and> scale_or_1 (clicks [ZoomIn 0, ZoomIn 0]) 0 - scale_or_1 (clicks [ZoomIn 0]) 0 \<noteq> 1 / 10
   \<and> scale_or_1 (clicks [ZoomIn 0, ZoomIn 0]) 0 - scale_or_1 (clicks [ZoomIn 0]) 0 \<noteq> num_0_1
   \<and> js_sub (scale_or_1 (clicks [ZoomIn 0, ZoomIn 0]) 0) (scale_or_1 (clicks [ZoomIn 0]) 0) \<noteq> num_0_1
   \<and> scale_or_1 (clicks [ZoomIn 0, ZoomIn 0]) 0 < 2"
proof -
  have a: "scale_or_1 (clicks [ZoomIn 0]) 0 = 2476979795053773 / 2251799813685248"
    by code_simp
  have b: "scale_or_1 (clicks [ZoomIn 0, ZoomIn 0]) 0 = 1351079888211149 / 1125899906842624"
    by code_simp
  have c: "fl (12 / 10) = 5404319552844595 / 4503599627370496"
    by code_simp
  have d: "js_sub (1351079888211149 / 1125899906842624) (2476979795053773 / 2251799813685248)
      = 3602879701896400 / 36028797018963968"
    by code_simp
  show ?thesis
    unfolding a b c d num_0_1_eq by simp
qed

text \<open>
  C3, amended: for every diagram and every sequence of clicks from the initial state, the
  scale lies in the closed interval from 0.5 to 2; a click stores the double nearest to the
  current scale plus or minus the double \<^verbatim>\<open>0.1\<close>, clamped to that interval, which differs
  from an exact step of one tenth (clamped) by a rounding error of at most \<open>1 / 2 ^ 51\<close>.
\<close>

theorem zoom_clicks_step_and_range:
  fixes cs :: "zoom_click list" and i :: nat
  defines "zs \<equiv> clicks cs"
  defines "c \<equiv> scale_or_1 zs i"
  shows "1 / 2 \<le> c \<and> c \<le> 2
    \<and> (\<forall>z. zs (mindmap_key i) = Some z \<longrightarrow> 1 / 2 \<le> scale z \<and> scale z \<le> 2)
    \<and> scale_or_1 (click zs (ZoomIn i)) i = min 2 (js_add c num_0_1)
    \<and> scale_or_1 (click zs (ZoomOut i)) i = max (1 / 2) (js_sub c num_0_1)
    \<and> \<bar>scale_or_1 (click zs (ZoomIn i)) i - min 2 (c + 1 / 10)\<bar> \<le> 1 / 2 ^ 51
    \<and> \<bar>scale_or_1 (click zs (ZoomOut i)) i - max (1 / 2) (c - 1 / 10)\<bar> \<le> 1 / 2 ^ 51"
proof -
  have r: "scales_in_range zs"
    unfolding zs_def by (rule clicks_in_range)
  have c: "1 / 2 \<le> c" "c \<le> 2"
    unfolding c_def by (rule scale_or_1_range[OF r])+
  have s: "\<forall>z. zs (mindmap_key i) = Some z \<longrightarrow> 1 / 2 \<le> scale z \<and> scale z \<le> 2"
    using r by (simp add: scales_in_range_def)
  have i: "scale_or_1 (click zs (ZoomIn i)) i = min 2 (js_add c num_0_1)"
    unfolding c_def using scale_or_1_zoom_in[OF r] by simp
  have o: "scale_or_1 (click zs (ZoomOut i)) i = max (1 / 2) (js_sub c num_0_1)"
    unfolding c_def using scale_or_1_zoom_out by simp
  show ?thesis
    using c s i o zoom_in_step[OF c] zoom_out_step[OF c] by simp
qed

theorem zoom_clicks_step_and_range_witness:
  "clicks [ZoomIn 0, ZoomIn 0, ZoomOut 1] (mindmap_key 0)
     = Some \<lparr>scale = 1351079888211149 / 1125899906842624, mindmapId = mindmap_key 0\<rparr>
   \<and> (1 / 2 :: rat) \<le> 1351079888211149 / 1125899906842624
   \<and> (1351079888211149 / 1125899906842624 :: rat) \<le> 2"
proof -
  have s: "clicks [ZoomIn 0, ZoomIn 0, ZoomOut 1] (mindmap_key 0)
      = Some \<lparr>scale = 1351079888211149 / 1125899906842624, mindmapId = mindmap_key 0\<rparr>"
    by code_simp
  from zoom_clicks_step_and_range [of "[ZoomIn 0, ZoomIn 0, ZoomOut 1]" 0] s show ?thesis
    by simp
qed

text \<open>
  C10: a click on a zoom button of diagram \<open>i\<close> leaves the entry of every other diagram
  \<open>j\<close> as it is, whatever state the handler and the updater see.
\<close>

theorem zoom_leaves_others:
  assumes "i \<noteq> j"
  shows "zoom_in zoomStates i prev (mindmap_key j) = prev (mindmap_key j)
    \<and> zoom_out zoomStates i prev (mindmap_key j) = prev (mindmap_key j)
    \<and> click prev (ZoomIn i) (mindmap_key j) = prev (mindmap_key j)
    \<and> click prev (ZoomOut i) (mindmap_key j) = prev (mindmap_key j)"
  using assms by (simp add: zoom_in_def zoom_out_def Let_def mindmap_key_inj)

theorem zoom_leaves_others_witness:
  "click (clicks [ZoomOut 1]) (ZoomIn 0) (mindmap_key 1) = clicks [ZoomOut 1] (mindmap_key 1)
   \<and> clicks [ZoomOut 1] (mindmap_key 1) \<noteq> None"
proof -
  have "(0::nat) \<noteq> 1" by simp
  from zoom_leaves_others [OF this, of "clicks [ZoomOut 1]" "clicks [ZoomOut 1]"]
  have "click (clicks [ZoomOut 1]) (ZoomIn 0) (mindmap_key 1) = clicks [ZoomOut 1] (mindmap_key 1)"
    by simp
  moreover have "clicks [ZoomOut 1] (mindmap_key 1) \<noteq> None"
    by (simp add: clicks_def zoom_out_def Let_def)
  ultimately show ?thesis by simp
qed

section \<open>Properties of the document tree\<close>

lemma get_at_update_at:
  "get_at t p = Some el \<Longrightarrow> get_at (update_at p f t) p = Some (f el)"
proof (induction p arbitrary: t)
  case Nil
  then show ?case by simp
next
  case (Cons n p)
  then show ?case by (cases t) (auto split: if_splits)
qed

lemma select_kids_append:
  "select_kids P n (xs @ ys) = select_kids P n xs @ select_kids P (n + length xs) ys"
  by (induction xs arbitrary: n) simp_all

lemma select_sound:
  shows "p \<in> set (select_all P t) \<Longrightarrow> \<exists>s. get_at t p = Some s \<and> P s"
    and "p \<in> set (select_kids P n ks) \<Longrightarrow>
           \<exists>m q s. p = m # q \<and> n \<le> m \<and> m < n + length ks \<and> get_at (ks ! (m - n)) q = Some s \<and> P s"
proof (induction P t and P n ks arbitrary: p and p rule: select_all_select_kids.induct)
  case (1 P t i cls st ats ks)
  then obtain m q s where "p = m # q" "m < length ks" "get_at (ks ! m) q = Some s" "P s"
    by fastforce
  then show ?case by auto
next
  case (2 P x)
  then show ?case by simp
next
  case (3 P n)
  then show ?case by simp
next
  case (4 P n k ks)
  from "4.prems" consider "p = [n]" "P k" | "p \<in> (#) n ` set (select_all P k)"
    | "p \<in> set (select_kids P (Suc n) ks)"
    by (auto split: if_splits)
  then show ?case
  proof cases
    case 1
    then show ?thesis by auto
  next
    case 2
    then obtain q where "p = n # q" "q \<in> set (select_all P k)" by auto
    with "4.IH"(1) show ?thesis by fastforce
  next
    case 3
    with "4.IH"(2) obtain m q s where
      "p = m # q" "Suc n \<le> m" "m < Suc n + length ks" "get_at (ks ! (m - Suc n)) q = Some s" "P s"
      by blast
    then show ?thesis
      by (auto simp: Suc_diff_le nth_Cons')
  qed
qed

lemma select_all_nonempty_paths: "[] \<notin> set (select_all P t)"
  using select_sound(2)[of "[]" P 0] by (cases t) auto


lemma shape_pred:
  shows "\<forall>k. P (shape k) = P k \<Longrightarrow> select_all P (shape t) = select_all P t"
    and "\<forall>k. P (shape k) = P k \<Longrightarrow> select_kids P n (map shape ks) = select_kids P n ks"
  by (induction P t and P n ks rule: select_all_select_kids.induct) simp_all

lemma has_tag_shape: "has_tag ts (shape k) = has_tag ts k"
  by (cases k) simp_all

lemma has_class_shape: "has_class c (shape k) = has_class c k"
  by (cases k) simp_all

lemma select_all_shape_eq:
  assumes "\<And>k. P (shape k) = P k" and "shape a = shape b"
  shows "select_all P a = select_all P b"
  using shape_pred(1)[of P a] shape_pred(1)[of P b] assms by simp

lemma shape_update_at:
  assumes "\<And>x. shape (f x) = shape x"
  shows "shape (update_at p f t) = shape t"
proof (induction p arbitrary: t)
  case Nil
  show ?case by (simp add: assms)
next
  case (Cons n p)
  show ?case
  proof (cases t)
    case (Elem tg i cls st ats ks)
    show ?thesis
    proof (cases "n < length ks")
      case True
      have "map shape (ks[n := update_at p f (ks ! n)]) = (map shape ks)[n := shape (ks ! n)]"
        by (simp add: map_update Cons.IH)
      also have "\<dots> = map shape ks"
        using True by (metis length_map list_update_id nth_map)
      finally show ?thesis
        using Elem True by simp
    next
      case False
      with Elem show ?thesis by simp
    qed
  next
    case (Text x)
    then show ?thesis by simp
  qed
qed

lemma shape_set_style: "shape (set_style p v k) = shape k"
  by (cases k) simp_all

lemma shape_setAttribute: "shape (setAttribute a v k) = shape k"
  by (cases k) simp_all

lemma shape_set_kids: "shape (set_kids new (Elem t i cls st ats ks)) = Elem t i cls [] [] (map shape new)"
  by simp

lemma shape_style_text: "shape (style_text k) = shape k"
  by (simp add: style_text_def shape_set_style)

lemma shape_round_corners: "shape (round_corners k) = shape k"
  by (simp add: round_corners_def shape_setAttribute)

lemma shape_style_node: "shape (style_node s p) = shape s"
  by (simp add: style_node_def shape_update_at shape_round_corners split: option.splits list.splits)

lemma shape_foldl:
  assumes "\<And>s p. shape (g s p) = shape s"
  shows "shape (foldl g s ps) = shape s"
  by (induction ps arbitrary: s) (simp_all add: assms)

lemma shape_style_svg: "shape (style_svg zs index svg) = shape svg"
  by (simp add: style_svg_def Let_def shape_foldl shape_style_node shape_update_at
      shape_style_text shape_set_style)

lemma style_of_update_at:
  "p \<noteq> [] \<Longrightarrow> style_of (update_at p f t) = style_of t"
  by (cases p; cases t) (auto simp: fun_eq_iff)

lemma style_of_style_node:
  "p \<noteq> [] \<Longrightarrow> style_of (style_node s p) = style_of s"
  by (simp add: style_node_def style_of_update_at split: option.splits list.splits)

lemma style_of_foldl:
  assumes "\<And>s p. p \<noteq> [] \<Longrightarrow> style_of (g s p) = style_of s" and "[] \<notin> set ps"
  shows "style_of (foldl g s ps) = style_of s"
  using assms(2) by (induction ps arbitrary: s) (auto simp: assms(1))

lemma style_of_set_style:
  "style_of (set_style p v (Elem t i cls st ats ks)) = (style_of (Elem t i cls st ats ks))(p \<mapsto> v)"
  by (auto simp: fun_eq_iff update_conv')

lemma set_style_Elem: "\<exists>st'. set_style p v (Elem t i cls st ats ks) = Elem t i cls st' ats ks"
  by simp

lemma transform_of_style_svg:
  "style_of (style_svg zs index (Elem t i cls st ats ks)) (lit ''transform'')
     = Some (CssScale (scale_or_1 zs index))"
proof -
  define s4 where "s4 = set_style (lit ''transform'') (CssScale (scale_or_1 zs index))
      (set_style (lit ''borderRadius'') (CssText (lit ''0.5rem''))
        (set_style (lit ''maxWidth'') (CssText (lit ''100%''))
          (set_style (lit ''width'') (CssText (lit ''100%'')) (Elem t i cls st ats ks))))"
  define s6 where "s6 = set_style (lit ''transition'') (CssText (lit ''transform 0.3s ease''))
      (set_style (lit ''transformOrigin'') (CssText (lit ''center'')) s4)"
  have s4: "\<exists>st'. s4 = Elem t i cls st' ats ks \<and> map_of st' (lit ''transform'') = Some (CssScale (scale_or_1 zs index))"
    by (simp add: s4_def update_conv')
  then have 6: "style_of s6 (lit ''transform'') = Some (CssScale (scale_or_1 zs index))"
    by (auto simp: s6_def update_conv' lit_inject)
  have "style_svg zs index (Elem t i cls st ats ks)
      = foldl style_node (foldl (\<lambda>s p. update_at p style_text s) s6 (select_all (has_tag [lit ''text'']) s6))
          (select_all (has_class (lit ''node''))
             (foldl (\<lambda>s p. update_at p style_text s) s6 (select_all (has_tag [lit ''text'']) s6)))"
    by (simp add: style_svg_def Let_def s6_def s4_def)
  then have "style_of (style_svg zs index (Elem t i cls st ats ks)) = style_of s6"
    by (simp add: style_of_foldl style_of_style_node style_of_update_at select_all_nonempty_paths)
  with 6 show ?thesis by simp
qed

lemma has_tag_Elem: "has_tag ts s \<Longrightarrow> \<exists>t i cls st ats ks. s = Elem t i cls st ats ks"
  by (cases s) simp_all

lemma applied_transform_render_into:
  assumes "get_at tree element = Some (Elem t i cls st ats ks)"
    and "select_all (has_tag [lit ''svg'']) (Elem t i cls st ats (parse_html e svg)) = p # ps"
  shows "applied_transform (update_at element (render_into e zs index svg) tree) element
           = Some (CssScale (scale_or_1 zs index))"
proof -
  let ?el = "Elem t i cls st ats (parse_html e svg)"
  have r: "render_into e zs index svg (Elem t i cls st ats ks) = update_at p (style_svg zs index) ?el"
    using assms(2) by (simp add: render_into_def Let_def)
  have g: "get_at (update_at element (render_into e zs index svg) tree) element
      = Some (update_at p (style_svg zs index) ?el)"
    using get_at_update_at[OF assms(1)] r by simp
  have "shape (update_at p (style_svg zs index) ?el) = shape ?el"
    by (rule shape_update_at) (rule shape_style_svg)
  then have sel: "select_all (has_tag [lit ''svg'']) (update_at p (style_svg zs index) ?el) = p # ps"
    using select_all_shape_eq[of "has_tag [lit ''svg'']"] assms(2) by (metis has_tag_shape)
  have "p \<in> set (select_all (has_tag [lit ''svg'']) ?el)"
    unfolding assms(2) by simp
  then obtain s where s: "get_at ?el p = Some s" "has_tag [lit ''svg''] s"
    using select_sound(1) by blast
  then obtain t' i' cls' st' ats' ks' where e: "s = Elem t' i' cls' st' ats' ks'"
    using has_tag_Elem by blast
  have "get_at (update_at p (style_svg zs index) ?el) p = Some (style_svg zs index s)"
    using get_at_update_at[OF s(1)] .
  then show ?thesis
    unfolding applied_transform_def using g sel e transform_of_style_svg by simp
qed

lemma applied_transform_no_svg:
  assumes "get_at tree element = Some (Elem t i cls st ats ks)"
    and "select_all (has_tag [lit ''svg'']) (Elem t i cls st ats (parse_html e svg)) = []"
  shows "applied_transform (update_at element (render_into e zs index svg) tree) element = None"
proof -
  have "render_into e zs index svg (Elem t i cls st ats ks) = Elem t i cls st ats (parse_html e svg)"
    using assms(2) by (simp add: render_into_def Let_def)
  then show ?thesis
    unfolding applied_transform_def using get_at_update_at[OF assms(1)] assms(2) by simp
qed

lemma shape_pred_under:
  shows "\<forall>k. P (shape k) = P k \<Longrightarrow> select_under a P inside (shape t) = select_under a P inside t"
    and "\<forall>k. P (shape k) = P k \<Longrightarrow>
           select_under_kids a P inside n (map shape ks) = select_under_kids a P inside n ks"
  by (induction a P inside t and a P inside n ks rule: select_under_select_under_kids.induct) simp_all

lemma select_under_style_svg:
  "select_under a (has_tag ts) inside (style_svg zs index svg) = select_under a (has_tag ts) inside svg"
  using shape_pred_under(1)[of "has_tag ts" a inside "style_svg zs index svg"]
    shape_pred_under(1)[of "has_tag ts" a inside svg]
  by (simp add: has_tag_shape shape_style_svg)

lemma select_under_sound:
  shows "p \<in> set (select_under a P inside t) \<Longrightarrow> \<exists>s. get_at t p = Some s \<and> P s"
    and "p \<in> set (select_under_kids a P inside n ks) \<Longrightarrow>
           \<exists>m q s. p = m # q \<and> n \<le> m \<and> m < n + length ks \<and> get_at (ks ! (m - n)) q = Some s \<and> P s"
proof (induction a P inside t and a P inside n ks arbitrary: p and p
    rule: select_under_select_under_kids.induct)
  case (1 a P inside t i cls st ats ks)
  then obtain m q s where "p = m # q" "m < length ks" "get_at (ks ! m) q = Some s" "P s"
    by fastforce
  then show ?case by auto
next
  case (2 a P inside x)
  then show ?case by simp
next
  case (3 a P inside n)
  then show ?case by simp
next
  case (4 a P inside n k ks)
  from "4.prems" consider "p = [n]" "P k" | "p \<in> (#) n ` set (select_under a P inside k)"
    | "p \<in> set (select_under_kids a P inside (Suc n) ks)"
    by (auto split: if_splits)
  then show ?case
  proof cases
    case 1
    then show ?thesis by auto
  next
    case 2
    then obtain q where "p = n # q" "q \<in> set (select_under a P inside k)" by auto
    with "4.IH"(1) show ?thesis by fastforce
  next
    case 3
    with "4.IH"(2) obtain m q s where
      "p = m # q" "Suc n \<le> m" "m < Suc n + length ks" "get_at (ks ! (m - Suc n)) q = Some s" "P s"
      by blast
    then show ?thesis
      by (auto simp: Suc_diff_le nth_Cons')
  qed
qed

section \<open>Properties of the rendered view and of the effect\<close>

lemma no_match:
  shows "\<forall>d \<in> set (subtree t). \<not> P d \<Longrightarrow> select_all P t = []"
    and "\<forall>k \<in> set ks. \<forall>d \<in> set (subtree k). \<not> P d \<Longrightarrow> select_kids P n ks = []"
proof (induction P t and P n ks rule: select_all_select_kids.induct)
  case (4 P n k ks)
  then have "\<not> P k"
    by (cases k) auto
  with 4 show ?case by simp
qed auto


lemma select_all_jsx: "select_all P (jsx t cls ks) = select_kids P 0 ks"
  by (simp add: jsx_def)

lemma get_at_jsx: "get_at (jsx t cls ks) (n # p) = (if n < length ks then get_at (ks ! n) p else None)"
  by (simp add: jsx_def)

lemma card_inner_diagram:
  "select_kids (has_class (lit ''mindmap-diagram'')) n
     [jsx ''h3'' ''text-2xl font-bold text-black dark:text-white mb-6'' [Text (Plain t)],
      controls index, diagram_div] = [[Suc (Suc n)]]"
  by code_simp

lemma card_not_diagram: "\<not> has_class (lit ''mindmap-diagram'') (card e index m)"
proof -
  have "lit ''mindmap-diagram'' \<notin> set (tokens []
      (lit ''relative bg-white dark:bg-black border border-black/10 dark:border-white/20 rounded-3xl p-6 shadow-lg''))"
    by code_simp
  then show ?thesis
    by (simp add: card_def jsx_def)
qed

lemma select_card:
  assumes "no_diagram_class (NeonBorder e)"
  shows "select_all (has_class (lit ''mindmap-diagram'')) (card e index m)
           = [[Suc (Suc (length (NeonBorder e)))]]"
proof -
  have "select_kids (has_class (lit ''mindmap-diagram'')) 0 (NeonBorder e) = []"
    using assms unfolding no_diagram_class_def by (rule no_match(2))
  then show ?thesis
    by (simp only: card_def select_all_jsx select_kids_append card_inner_diagram
        append_Nil add_0)
qed

lemma select_cards:
  assumes "no_diagram_class (NeonBorder e)"
  shows "select_kids (has_class (lit ''mindmap-diagram'')) n (cards e index ms)
           = map (\<lambda>j. [n + j, Suc (Suc (length (NeonBorder e)))]) [0..<length ms]"
proof (induction ms arbitrary: n index)
  case Nil
  show ?case by simp
next
  case (Cons m ms)
  have "map (\<lambda>j. [n + j, Suc (Suc (length (NeonBorder e)))]) [0..<length (m # ms)]
      = [n, Suc (Suc (length (NeonBorder e)))]
          # map (\<lambda>j. [Suc n + j, Suc (Suc (length (NeonBorder e)))]) [0..<length ms]"
    by (simp add: map_upt_Suc del: upt_Suc)
  then show ?case
    by (simp add: Cons.IH select_card[OF assms] card_not_diagram del: upt_Suc)
qed

lemma length_cards: "length (cards e index ms) = length ms"
  by (induction ms arbitrary: index) simp_all

lemma nth_cards: "i < length ms \<Longrightarrow> cards e index ms ! i = card e (index + i) (ms ! i)"
proof (induction ms arbitrary: index i)
  case Nil
  then show ?case by simp
next
  case (Cons m ms)
  then show ?case by (cases i) simp_all
qed

lemma select_time_line: "select_kids (has_class (lit ''mindmap-diagram'')) n (time_line t) = []"
proof -
  have "select_kids (has_class (lit ''mindmap-diagram'')) n
      [jsx ''div'' ''text-center mb-6''
         [jsx ''p'' ''text-sm text-gray-600 dark:text-gray-400''
            [Text (Plain (lit ''Generated in '')), Text (Seconds x), Text (Plain (lit '' seconds''))]]] = []"
    for x
    by code_simp
  then show ?thesis
    by (simp add: time_line_def split: option.splits)
qed

lemma select_streak_button: "select_kids (has_class (lit ''mindmap-diagram'')) n [streak_button] = []"
  by code_simp

lemma select_viewer:
  assumes "no_diagram_class (NeonBorder e)" and "mindmaps props = Some ms" and "ms \<noteq> []"
  shows "select_all (has_class (lit ''mindmap-diagram'')) (MindmapViewer_render e props)
           = map (\<lambda>j. [length (time_line (processingTime props)) + j, Suc (Suc (length (NeonBorder e)))])
               [0..<length ms]"
proof -
  have "select_all (has_class (lit ''mindmap-diagram'')) (MindmapViewer_render e props)
      = select_all (has_class (lit ''mindmap-diagram''))
          (jsx ''div'' ''space-y-8'' (time_line (processingTime props) @ cards e 0 ms @ [streak_button]))"
    using assms(2,3) by (simp add: MindmapViewer_render_def)
  also have "\<dots> = map (\<lambda>j. [length (time_line (processingTime props)) + j, Suc (Suc (length (NeonBorder e)))])
               [0..<length ms]"
    by (simp only: select_all_jsx select_kids_append select_time_line select_cards[OF assms(1)]
        select_streak_button append_Nil append_Nil2 add_0)
  finally show ?thesis .
qed

lemma schedule_map:
  "map (\<lambda>t. (delay t, idx t, target t, captured t)) (schedule zs n ps)
     = map (\<lambda>j. ((n + j) * 300, n + j, ps ! j, zs)) [0..<length ps]"
proof (induction ps arbitrary: n)
  case Nil
  show ?case by simp
next
  case (Cons p ps)
  show ?case
    by (simp add: Cons.IH map_upt_Suc del: upt_Suc)
qed



lemma diagram_div_in_card: "get_at (card e index m) [Suc (Suc (length (NeonBorder e)))] = Some diagram_div"
  by (simp add: card_def get_at_jsx nth_append)

lemma diagram_div_in_viewer:
  assumes "mindmaps props = Some ms" and "i < length ms"
  shows "get_at (MindmapViewer_render e props)
           [length (time_line (processingTime props)) + i, Suc (Suc (length (NeonBorder e)))]
         = Some diagram_div"
proof -
  have "ms \<noteq> []" using assms(2) by auto
  moreover have "(time_line (processingTime props) @ cards e 0 ms @ [streak_button])
        ! (length (time_line (processingTime props)) + i) = card e i (ms ! i)"
    using assms(2) by (simp add: nth_append length_cards nth_cards)
  ultimately show ?thesis
    using assms diagram_div_in_card[of e i "ms ! i"]
    by (simp add: MindmapViewer_render_def get_at_jsx length_cards jsx_def card_def)
qed

lemma mount_viewer:
  assumes "mindmaps props = Some ms" and "ms \<noteq> []" and "no_diagram_class (NeonBorder e)"
  shows "mount e props =
    Inr (\<lparr>zooms = Map.empty, dom = MindmapViewer_render e props, console = []\<rparr>,
         schedule Map.empty 0
           (map (\<lambda>j. [length (time_line (processingTime props)) + j, Suc (Suc (length (NeonBorder e)))])
              [0..<length ms]))"
  using assms(1,2) select_viewer[OF assms(3,1,2)]
  by (simp add: mount_def run_effect_def containerRef_current_def Let_def)

lemma fire_resolved:
  assumes "render_args e props t = Inr (key, src)" and "render key src = Resolved svg"
  shows "fire e props render t st =
    (None, st\<lparr>dom := update_at (target t) (render_into e (captured t) (idx t) svg) (dom st)\<rparr>)"
  using assms by (simp add: fire_def callback_def)

lemma page_neon: "no_diagram_class (NeonBorder page)"
proof -
  have "lit ''mindmap-diagram'' \<notin> set (tokens [] (lit ''neon-border''))"
    by code_simp
  then show ?thesis
    by (simp add: no_diagram_class_def page_def jsx_def)
qed

lemma mount_one: "mount page one_map = Inr (mounted_one, [first_timer])"
proof -
  have "mindmaps one_map = Some [\<lparr>title = lit ''My  first map'', code = lit ''mindmap root((A))''\<rparr>]"
    by (simp add: one_map_def)
  from mount_viewer[OF this _ page_neon] show ?thesis
    by (simp add: mounted_one_def first_timer_def one_map_def page_def time_line_def)
qed

lemma render_args_one:
  "render_args page one_map first_timer = Inr (mindmap_key 0, lit ''mindmap root((A))'')"
  by (simp add: render_args_def one_map_def first_timer_def)

lemma rendered_one_eq:
  "rendered_one = mounted_one\<lparr>dom := update_at [0, 3] (render_into page Map.empty 0 svg_text)
      (MindmapViewer_render page one_map)\<rparr>"
  using fire_resolved[OF render_args_one, of renders_svg svg_text mounted_one]
  by (simp add: rendered_one_def renders_svg_def first_timer_def mounted_one_def)

lemma diagram_div_one: "get_at (MindmapViewer_render page one_map) [0, 3] = Some diagram_div"
  using diagram_div_in_viewer[of one_map _ 0 page]
  by (simp add: one_map_def page_def time_line_def numeral_3_eq_3)

lemma select_svg_one:
  "select_all (has_tag [lit ''svg'']) (Elem t i cls st ats (parse_html page svg_text)) = [[0]]"
  by (simp add: page_def svg_tree_def lit_inject)

lemma transform_one: "applied_transform (dom rendered_one) [0, 3] = Some (CssScale 1)"
proof -
  have "scale_or_1 Map.empty 0 = 1"
    by (simp add: scale_or_1_def)
  then show ?thesis
    using applied_transform_render_into[OF diagram_div_one[unfolded diagram_div_def] select_svg_one, of Map.empty 0]
    by (simp add: rendered_one_eq)
qed


lemma dom_zoom_click_on: "dom (zoom_click_on c st) = dom st"
  by (simp add: zoom_click_on_def)

lemma zooms_rendered_one: "zooms rendered_one = Map.empty"
  by (simp add: rendered_one_eq mounted_one_def)

lemma find_nothing_one: "find_export_svg page 0 (dom rendered_one) = None"
proof -
  have k: "mindmap_key 0 = lit ''mindmap-0''"
    by code_simp
  show ?thesis
    apply (simp add: rendered_one_eq mounted_one_def find_export_svg_def k)
    apply (simp add: MindmapViewer_render_def one_map_def page_def time_line_def card_def
      controls_def zoom_button_def icon_def streak_button_def diagram_div_def spinner_def jsx_def
      render_into_def Let_def svg_tree_def lit_inject select_under_style_svg)
    done
qed

text \<open>The timers of a mount, and the calls that they make.\<close>

lemma count_card: "1 \<le> length (select_all (has_class (lit ''mindmap-diagram'')) (card e index m))"
  by (simp only: card_def select_all_jsx select_kids_append card_inner_diagram) simp

lemma count_cards:
  "length ms \<le> length (select_kids (has_class (lit ''mindmap-diagram'')) n (cards e index ms))"
proof (induction ms arbitrary: n index)
  case Nil
  show ?case by simp
next
  case (Cons m ms)
  from Cons.IH[of "Suc n" "Suc index"] count_card[of e index m] show ?case
    by simp
qed

lemma count_viewer:
  assumes "mindmaps props = Some ms" and "ms \<noteq> []"
  shows "length ms \<le> length (select_all (has_class (lit ''mindmap-diagram'')) (MindmapViewer_render e props))"
proof -
  have "select_all (has_class (lit ''mindmap-diagram'')) (MindmapViewer_render e props)
      = select_all (has_class (lit ''mindmap-diagram''))
          (jsx ''div'' ''space-y-8'' (time_line (processingTime props) @ cards e 0 ms @ [streak_button]))"
    using assms by (simp add: MindmapViewer_render_def)
  then show ?thesis
    using count_cards[of ms "0 + length (time_line (processingTime props))" e 0]
    by (simp only: select_all_jsx select_kids_append length_append)
qed

lemma delays_schedule:
  "map delay (schedule zs n ps) = map (\<lambda>j. j * 300) [n..<n + length ps]"
proof (induction ps arbitrary: n)
  case Nil
  show ?case by simp
next
  case (Cons p ps)
  have "[n..<n + length (p # ps)] = n # [Suc n..<Suc n + length ps]"
    by (subst upt_rec) simp
  then show ?case
    by (simp add: Cons.IH)
qed

lemma sorted_schedule: "sorted (map delay (schedule zs n ps))"
  unfolding delays_schedule
  by (simp add: sorted_map sorted_wrt_mono_rel[OF _ sorted_wrt_upt])

lemma filter_below: "filter (\<lambda>j. j < N) [0..<L] = [0..<min N L]"
proof (induction L)
  case 0
  show ?case by simp
next
  case (Suc L)
  show ?case
  proof (cases "L < N")
    case True
    then have "min N L = L" "min N (Suc L) = Suc L"
      by simp_all
    with True Suc show ?thesis by simp
  next
    case False
    then have "min N L = N" "min N (Suc L) = N"
      by simp_all
    with False Suc show ?thesis by simp
  qed
qed

lemma fire_all_schedule:
  assumes "mindmaps props = Some ms"
  shows "fst (fire_all e props render (schedule zs n ps) st)
    = map (\<lambda>j. (j * 300, mindmap_key j, code (ms ! j)))
        (filter (\<lambda>j. j < length ms) [n..<n + length ps])"
proof (induction ps arbitrary: n st)
  case Nil
  show ?case by simp
next
  case (Cons p ps)
  have u: "[n..<n + length (p # ps)] = n # [Suc n..<Suc n + length ps]"
    by (subst upt_rec) simp
  show ?case
    unfolding u using assms
    by (simp add: Cons.IH callback_def render_args_def Let_def split_beta)
qed


section \<open>Properties of the HTML parser\<close>



















section \<open>Properties of the component\<close>

text \<open>
  C6: for a non-empty list of \<open>N\<close> entries, mounting sets the timers, and when they have
  all fired, \<^verbatim>\<open>mermaid.render\<close> has been called exactly \<open>N\<close> times, whatever the
  library answers: call \<open>i\<close> (counting from 0) is made by the timer with the delay \<open>300 * i\<close>,
  with the id \<^verbatim>\<open>mindmap-i\<close> and the source text of entry \<open>i\<close>. So the calls follow the
  list order, one per entry, and their delays are proportional to the index and strictly
  increasing. (A timer of an element of class \<^verbatim>\<open>mindmap-diagram\<close> beyond the \<open>N\<close>-th one,
  if \<^verbatim>\<open>NeonBorder\<close> renders any, makes no call: reading its entry raises.)
\<close>

theorem render_calls_staggered:
  assumes "mindmaps props = Some ms" and "ms \<noteq> []"
  shows "\<exists>st ts. mount e props = Inr (st, ts)
      \<and> fst (run_timers e props render ts st)
          = map (\<lambda>i. (i * 300, mindmap_key i, code (ms ! i))) [0..<length ms]
      \<and> length (fst (run_timers e props render ts st)) = length ms
      \<and> sorted_wrt (<) (map fst (fst (run_timers e props render ts st)))"
proof -
  define ps where "ps = select_all (has_class (lit ''mindmap-diagram'')) (MindmapViewer_render e props)"
  define ts where "ts = schedule Map.empty 0 ps"
  define st where "st = \<lparr>zooms = Map.empty, dom = MindmapViewer_render e props, console = []\<rparr>"
  have m: "mount e props = Inr (st, ts)"
    using assms
    by (simp add: mount_def run_effect_def containerRef_current_def Let_def st_def ts_def ps_def)
  have "length ms \<le> length ps"
    unfolding ps_def using assms by (rule count_viewer)
  then have f: "filter (\<lambda>j. j < length ms) [0..<0 + length ps] = [0..<length ms]"
    by (simp add: filter_below)
  have r: "run_timers e props render ts st = fire_all e props render ts st"
    by (simp add: run_timers_def ts_def sort_key_id_if_sorted[OF sorted_schedule])
  have c: "fst (run_timers e props render ts st)
      = map (\<lambda>i. (i * 300, mindmap_key i, code (ms ! i))) [0..<length ms]"
    unfolding r unfolding ts_def fire_all_schedule[OF assms(1)] f ..
  have s: "sorted_wrt (<) (map fst (fst (run_timers e props render ts st)))"
    unfolding c by (simp add: comp_def sorted_wrt_map sorted_wrt_mono_rel[OF _ sorted_wrt_upt])
  from m c s show ?thesis
    by (intro exI[of _ st] exI[of _ ts]) simp
qed

theorem render_calls_staggered_witness:
  "\<exists>st ts. mount page two_maps = Inr (st, ts)
      \<and> fst (run_timers page two_maps renders_svg ts st)
          = [(0, mindmap_key 0, lit ''mindmap a''), (300, mindmap_key 1, lit ''mindmap b'')]"
proof -
  have m: "mindmaps two_maps = Some [\<lparr>title = lit ''A'', code = lit ''mindmap a''\<rparr>,
      \<lparr>title = lit ''B'', code = lit ''mindmap b''\<rparr>]"
    by (simp add: two_maps_def)
  have u: "[0..<2] = [0, Suc 0]"
    by (simp add: upt_rec)
  from render_calls_staggered[OF m, of page renders_svg] show ?thesis
    by (auto simp: u)
qed

text \<open>For the empty list, mounting shows the placeholder and schedules no timer.\<close>

lemma empty_list_placeholder:
  "mount e \<lparr>mindmaps = Some [], processingTime = t\<rparr>
     = Inr (\<lparr>zooms = Map.empty, dom = placeholder, console = []\<rparr>, [])"
  by (simp add: mount_def MindmapViewer_render_def run_effect_def Let_def)

text \<open>
  C7 says that an empty or absent entry sequence gives the placeholder and no render call.
  For the absent sequence the code does not do that: the function component returns the
  placeholder (it tests \<^verbatim>\<open>!mindmaps\<close>), but the effect reads \<^verbatim>\<open>mindmaps.length\<close>
  without that test and raises a \<^verbatim>\<open>TypeError\<close>, so that mounting fails.
\<close>

theorem absent_list_effect_throws:
  "MindmapViewer_render e \<lparr>mindmaps = None, processingTime = t\<rparr> = placeholder
   \<and> mount e \<lparr>mindmaps = None, processingTime = t\<rparr>
       = Inl (Thrown TypeError (TypeError_text (the_engine e)))"
  by (simp add: mount_def MindmapViewer_render_def run_effect_def Let_def)




text \<open>A line feed at the start of the message is dropped, so such a message is not shown whole.\<close>

lemma leading_line_feed_dropped:
  "parse_fragment (error_panel (10 # lit ''x'')) = Some (panel_tree (lit ''x''))"
  by code_simp

text \<open>A rejection with \<^verbatim>\<open>null\<close> or \<^verbatim>\<open>undefined\<close> is the case that does escape.\<close>

lemma nullish_rejection_escapes:
  assumes "render_args e props t = Inr (key, src)" and "render key src = Rejected ThrownNullish"
  shows "fst (fire e props render t st) = Some (Thrown TypeError (TypeError_text (the_engine e)))
    \<and> dom (snd (fire e props render t st)) = dom st"
  using assms by (simp add: fire_def callback_def on_rejected_def log_error_def Let_def)

lemma percentage_of_one: "Math_round (js_mul 1 100) = 100"
  by code_simp

text \<open>
  C9: for a diagram without an entry in the zoom state, the effective scale is 1, the
  displayed percentage is 100, and a render that runs with this zoom state puts the
  transform \<^verbatim>\<open>scale(1)\<close> on the diagram (when the rendered markup has an \<^verbatim>\<open>svg\<close> at all).
\<close>

theorem fresh_diagram_scale_one:
  assumes "zs (mindmap_key index) = None"
    and "get_at tree element = Some (Elem t i cls st ats ks)"
  shows "scale_or_1 zs index = 1
    \<and> displayed_percentage zs index = 100
    \<and> applied_transform (update_at element (render_into e zs index svg) tree) element
        = (if select_all (has_tag [lit ''svg'']) (Elem t i cls st ats (parse_html e svg)) = [] then None
           else Some (CssScale 1))"
proof -
  have s: "scale_or_1 zs index = 1"
    using assms(1) by (simp add: scale_or_1_def)
  have p: "displayed_percentage zs index = 100"
    by (simp add: displayed_percentage_def s percentage_of_one)
  show ?thesis
  proof (cases "select_all (has_tag [lit ''svg'']) (Elem t i cls st ats (parse_html e svg))")
    case Nil
    from applied_transform_no_svg[OF assms(2) Nil] s p Nil show ?thesis by simp
  next
    case (Cons q qs)
    from applied_transform_render_into[OF assms(2) Cons] s p Cons show ?thesis by simp
  qed
qed

theorem fresh_diagram_scale_one_witness:
  "displayed_percentage (zooms mounted_one) 0 = 100
   \<and> applied_transform (dom rendered_one) [0, 3] = Some (CssScale 1)"
proof -
  have z: "(Map.empty :: zoom_states) (mindmap_key 0) = None"
    by simp
  note d = diagram_div_one[unfolded diagram_div_def]
  from fresh_diagram_scale_one[where e = page and svg = svg_text and zs = Map.empty and index = 0,
      OF z d] select_svg_one
  show ?thesis
    by (simp add: rendered_one_eq mounted_one_def)
qed

text \<open>A zoom click does not touch the tree, so no transform follows it.\<close>

lemma transform_ignores_zoom_click:
  "applied_transform (dom (zoom_click_on c st)) element = applied_transform (dom st) element"
  by (simp add: dom_zoom_click_on)

text \<open>
  C2 says that after any sequence of zoom clicks the displayed percentage and the transform
  of the diagram both follow the stored scale. The code does not do that for the transform:
  in the first example, after the diagram is rendered and the plus button is clicked once,
  the stored scale is the double 1.1 and the percentage shows 110, but the transform of the
  diagram is still \<^verbatim>\<open>scale(1)\<close>.
\<close>

theorem zoom_click_not_applied:
  "mount page one_map = Inr (mounted_one, [first_timer])
   \<and> scale_or_1 (zooms after_zoom_in) 0 = 2476979795053773 / 2251799813685248
   \<and> displayed_percentage (zooms after_zoom_in) 0 = 110
   \<and> applied_transform (dom after_zoom_in) (target first_timer) = Some (CssScale 1)"
proof -
  have z: "zooms after_zoom_in = click Map.empty (ZoomIn 0)"
    by (simp add: after_zoom_in_def zoom_click_on_def zooms_rendered_one)
  have "scale_or_1 (click Map.empty (ZoomIn 0)) 0 = 2476979795053773 / 2251799813685248"
    by code_simp
  moreover have "displayed_percentage (click Map.empty (ZoomIn 0)) 0 = 110"
    by code_simp
  moreover have "applied_transform (dom after_zoom_in) (target first_timer) = Some (CssScale 1)"
    by (simp add: after_zoom_in_def dom_zoom_click_on transform_one first_timer_def)
  ultimately show ?thesis
    by (simp add: z mount_one)
qed

section \<open>Properties of the export button\<close>

text \<open>What the selector of the export button finds is an \<^verbatim>\<open>svg\<close> element.\<close>

lemma find_export_svg_is_svg:
  assumes "find_export_svg e index container = Some s"
  shows "has_tag [lit ''svg''] s"
proof -
  obtain p ps where p: "select_under (mindmap_key index) (has_tag [lit ''svg''])
      (mindmap_key index \<in> set (outer_ids e)) container = p # ps" and g: "get_at container p = Some s"
    using assms by (auto simp: find_export_svg_def split: list.splits)
  have "p \<in> set (select_under (mindmap_key index) (has_tag [lit ''svg''])
      (mindmap_key index \<in> set (outer_ids e)) container)"
    unfolding p by simp
  from select_under_sound(1)[OF this] g show ?thesis by simp
qed

lemma export_click_found:
  assumes "find_export_svg e index container = Some svg"
  shows "export_click e mindmap index container w =
    w\<lparr>object_urls := filter (\<lambda>(v, b). v \<noteq> next_url w)
          ((next_url w, \<lparr>content = serializeToString e svg, mime = lit ''image/svg+xml''\<rparr>) # object_urls w),
      next_url := Suc (next_url w),
      next_node := Suc (next_node w),
      body_children := filter (\<lambda>m. m \<noteq> next_node w)
          (filter (\<lambda>m. m \<noteq> next_node w) (body_children w) @ [next_node w]),
      downloads := downloads w @
          [(download_name (title mindmap),
            Some \<lparr>content = serializeToString e svg, mime = lit ''image/svg+xml''\<rparr>)]\<rparr>"
  using assms
  by (simp add: export_click_def createObjectURL_def createElement_def appendChild_def
      click_link_def removeChild_def revokeObjectURL_def Let_def)

lemma export_click_not_found:
  assumes "find_export_svg e index container = None"
  shows "export_click e mindmap index container w = w"
  using assms by (simp add: export_click_def)

text \<open>
  When the selector finds an element, the download carries its serialization and the name
  made of the title, with every run of white space replaced by one underscore, and the
  suffix \<^verbatim>\<open>_mindmap.svg\<close>.
\<close>

lemma export_payload:
  assumes "find_export_svg e index container = Some svg"
  shows "downloads (export_click e mindmap index container w) =
    downloads w @ [(replace_spaces (title mindmap) @ lit ''_mindmap.svg'',
                    Some \<lparr>content = serializeToString e svg, mime = lit ''image/svg+xml''\<rparr>)]"
  by (simp add: export_click_found[OF assms] download_name_def)

lemma replace_spaces_no_space: "c \<in> set (replace_spaces s) \<Longrightarrow> \<not> is_space c"
proof (induction s rule: replace_spaces.induct)
  case 1
  then show ?case by simp
next
  case (2 d ds)
  have "\<not> is_space 95"
    by (simp add: is_space_def)
  with 2 show ?case
    by (auto split: if_splits)
qed

text \<open>
  C4 says that the export of a successfully rendered diagram produces a download with the
  serialized diagram. The code does not do that: the selector \<^verbatim>\<open>#mindmap-0 svg\<close> asks for an
  \<^verbatim>\<open>svg\<close> inside an element with that id, and the only element with that id is the
  rendered \<^verbatim>\<open>svg\<close> itself. In the first example the diagram is rendered (its transform is
  set), the selector finds nothing and the click on the export button changes nothing.
\<close>

theorem export_finds_nothing:
  "mount page one_map = Inr (mounted_one, [first_timer])
   \<and> rendered_one = snd (fire page one_map renders_svg first_timer mounted_one)
   \<and> applied_transform (dom rendered_one) (target first_timer) = Some (CssScale 1)
   \<and> find_export_svg page 0 (dom rendered_one) = None
   \<and> export_click page \<lparr>title = lit ''My  first map'', code = lit ''mindmap root((A))''\<rparr> 0
        (dom rendered_one) empty_page = empty_page"
  using mount_one transform_one find_nothing_one export_click_not_found[OF find_nothing_one]
  by (simp add: rendered_one_def first_timer_def)

text \<open>
  C8: an export click leaves the children of the document body and the live object URLs as
  they were: the link that was appended is removed, the URL that was created is revoked.
\<close>

theorem export_leaves_no_residue:
  assumes "browser_ok w"
  shows "body_children (export_click e mindmap index container w) = body_children w
    \<and> object_urls (export_click e mindmap index container w) = object_urls w
    \<and> browser_ok (export_click e mindmap index container w)"
proof (cases "find_export_svg e index container")
  case None
  with assms show ?thesis
    by (simp add: export_click_not_found)
next
  case (Some svg)
  have n: "filter (\<lambda>m. m \<noteq> next_node w) (body_children w) = body_children w"
    using assms by (auto simp: browser_ok_def filter_id_conv)
  have u: "filter (\<lambda>(v, b). v \<noteq> next_url w) (object_urls w) = object_urls w"
    using assms by (fastforce simp: browser_ok_def filter_id_conv)
  show ?thesis
    using assms by (auto simp: export_click_found[OF Some] n u browser_ok_def less_Suc_eq)
qed

lemma find_wrapped: "find_export_svg page 0 wrapped_svg = Some svg_tree"
proof -
  have k: "mindmap_key 0 = lit ''mindmap-0''"
    by code_simp
  show ?thesis
    by (simp add: find_export_svg_def k wrapped_svg_def svg_tree_def page_def lit_inject)
qed

theorem export_leaves_no_residue_witness:
  "body_children (export_click page \<lparr>title = lit ''My  first map'', code = []\<rparr> 0 wrapped_svg empty_page) = [0]
   \<and> object_urls (export_click page \<lparr>title = lit ''My  first map'', code = []\<rparr> 0 wrapped_svg empty_page) = []
   \<and> downloads (export_click page \<lparr>title = lit ''My  first map'', code = []\<rparr> 0 wrapped_svg empty_page)
       = [(lit ''My_first_map_mindmap.svg'', Some \<lparr>content = svg_text, mime = lit ''image/svg+xml''\<rparr>)]"
proof -
  have o: "browser_ok empty_page"
    by (simp add: browser_ok_def empty_page_def)
  have r: "replace_spaces (lit ''My  first map'') = lit ''My_first_map''"
    by (simp add: lit_def is_space_def)
  have a: "lit ''My_first_map'' @ lit ''_mindmap.svg'' = lit ''My_first_map_mindmap.svg''"
    by (simp add: lit_def)
  from export_leaves_no_residue[OF o, of page _ 0 wrapped_svg] export_payload[OF find_wrapped, of _ empty_page]
  show ?thesis
    by (simp add: empty_page_def r a page_def)
qed

end
